theory Spec2Isabelle
  imports Main
begin

section \<open>Python strings\<close>

text \<open>
  Strings are lists of characters. Three characters cannot be written inside a literal
  and get names: the line feed, the double quote and the single quote.
\<close>

definition nl :: char where
  "nl = CHR 0x0A"

definition dq :: char where
  "dq = CHR 0x22"

definition sq :: char where
  "sq = CHR 0x27"

text \<open>\<^verbatim>\<open>str(n)\<close> of a non-negative integer: its decimal digits.\<close>

fun str_nat :: "nat \<Rightarrow> string" where
  "str_nat n =
     (if n < 10 then [''0123456789'' ! n]
      else str_nat (n div 10) @ [''0123456789'' ! (n mod 10)])"

declare str_nat.simps [simp del]

text \<open>\<^verbatim>\<open>s.startswith(p)\<close>.\<close>

definition startswith :: "string \<Rightarrow> string \<Rightarrow> bool" where
  "startswith s p = (take (length p) s = p)"

text \<open>\<^verbatim>\<open>"\n".join(xs)\<close>.\<close>

fun join_nl :: "string list \<Rightarrow> string" where
  "join_nl [] = []"
| "join_nl [x] = x"
| "join_nl (x # y # ys) = x @ nl # join_nl (y # ys)"

text \<open>\<^verbatim>\<open>s.lower()\<close> on ASCII letters.\<close>

definition lower_char :: "char \<Rightarrow> char" where
  "lower_char c =
     (case map_of (zip ''ABCDEFGHIJKLMNOPQRSTUVWXYZ'' ''abcdefghijklmnopqrstuvwxyz'') c of
        None \<Rightarrow> c
      | Some d \<Rightarrow> d)"

definition lower :: "string \<Rightarrow> string" where
  "lower s = map lower_char s"

text \<open>
  \<^verbatim>\<open>s.split()\<close>: the maximal runs of characters that are not white space, in order.
\<close>

definition is_space :: "char \<Rightarrow> bool" where
  "is_space c = (c \<in> set [CHR 0x20, CHR 0x09, CHR 0x0A, CHR 0x0B, CHR 0x0C, CHR 0x0D,
                            CHR 0x1C, CHR 0x1D, CHR 0x1E, CHR 0x1F])"

fun py_split :: "string \<Rightarrow> string list" where
  "py_split [] = []"
| "py_split (c # cs) =
     (if is_space c then py_split cs
      else (case cs of
              [] \<Rightarrow> [[c]]
            | d # _ \<Rightarrow>
                if is_space d then [c] # py_split cs
                else (case py_split cs of
                        [] \<Rightarrow> [[c]]
                      | t # ts \<Rightarrow> (c # t) # ts)))"

text \<open>
  A triple-quoted template whose text starts on the line after the opening quotes and
  ends with the line before the closing quotes: a line feed, then every line followed
  by a line feed. The templates of the program are written line by line this way.
\<close>

definition triple_quoted :: "string list \<Rightarrow> string" where
  "triple_quoted ls = nl # concat (map (\<lambda>l. l @ [nl]) ls)"

section \<open>Exceptions\<close>

datatype exn =
    FileNotFoundError
  | NotADirectoryError
  | IsADirectoryError
  | PermissionError
  | CalledProcessError
  | ValueError
  | IndexError
  | NameError
  | EOFError
  | SystemExit

text \<open>An exception is its class and its message (\<^verbatim>\<open>str(e)\<close>).\<close>

type_synonym error = "exn \<times> string"

definition errno_text :: "exn \<Rightarrow> string" where
  "errno_text k =
     (case k of
        FileNotFoundError \<Rightarrow> ''[Errno 2] No such file or directory''
      | NotADirectoryError \<Rightarrow> ''[Errno 20] Not a directory''
      | IsADirectoryError \<Rightarrow> ''[Errno 21] Is a directory''
      | PermissionError \<Rightarrow> ''[Errno 13] Permission denied''
      | _ \<Rightarrow> [])"

definition os_error :: "exn \<Rightarrow> string \<Rightarrow> error" where
  "os_error k path = (k, errno_text k @ '': '' @ [sq] @ path @ [sq])"

text \<open>\<^verbatim>\<open>xs[k]\<close> for \<open>k \<ge> 0\<close>: an \<open>IndexError\<close> out of range.\<close>

definition py_index :: "'a list \<Rightarrow> nat \<Rightarrow> error + 'a" where
  "py_index xs k =
     (if k < length xs then Inr (xs ! k) else Inl (IndexError, ''list index out of range''))"

section \<open>The world the script runs in\<close>

text \<open>
  The script is sequential glue around the file system, the terminal and external
  programs. Its environment is a record that every function takes and returns:
  \<^item> \<open>fs\<close>: the file system, a map from paths to nodes. A node is a file with its
    content or a directory with its listing (\<open>None\<close> for a directory that cannot be
    listed). Paths are flat: opening an absent path for writing creates the file, and the
    only write that fails is one to a directory.
  \<^item> \<open>out\<close>: what was written to the terminal, one entry per \<^verbatim>\<open>print\<close> or prompt.
  \<^item> \<open>stdin\<close>: the lines the user will type; \<^verbatim>\<open>input\<close> at the end raises \<open>EOFError\<close>.
  \<^item> \<open>procs\<close>: how an external command ends: \<open>None\<close> when the program is not
    installed, else its exit status and standard output.
  \<^item> \<open>ran\<close>: the external commands started so far, in order.
  \<^item> \<open>rand\<close>: the draws the random generator will make.
\<close>

datatype node = File string | Dir "string list option"

record world =
  fs :: "string \<Rightarrow> node option"
  out :: "string list"
  stdin :: "string list"
  procs :: "string list \<Rightarrow> (nat \<times> string) option"
  ran :: "string list list"
  rand :: "nat list"

definition py_print :: "string \<Rightarrow> world \<Rightarrow> world" where
  "py_print s w = w\<lparr>out := out w @ [s]\<rparr>"

definition py_input :: "string \<Rightarrow> world \<Rightarrow> (error + string) \<times> world" where
  "py_input prompt w =
     (case stdin w of
        [] \<Rightarrow> (Inl (EOFError, ''EOF when reading a line''), py_print prompt w)
      | l # ls \<Rightarrow> (Inr l, (py_print prompt w)\<lparr>stdin := ls\<rparr>))"

definition path_exists :: "world \<Rightarrow> string \<Rightarrow> bool" where
  "path_exists w path = (case fs w path of None \<Rightarrow> False | Some _ \<Rightarrow> True)"

definition path_isdir :: "world \<Rightarrow> string \<Rightarrow> bool" where
  "path_isdir w path = (case fs w path of Some (Dir _) \<Rightarrow> True | _ \<Rightarrow> False)"

definition listdir :: "world \<Rightarrow> string \<Rightarrow> error + string list" where
  "listdir w path =
     (case fs w path of
        None \<Rightarrow> Inl (os_error FileNotFoundError path)
      | Some (File _) \<Rightarrow> Inl (os_error NotADirectoryError path)
      | Some (Dir None) \<Rightarrow> Inl (os_error PermissionError path)
      | Some (Dir (Some names)) \<Rightarrow> Inr names)"

text \<open>\<^verbatim>\<open>with open(path, "w") as f: f.write(content)\<close>.\<close>

definition write_file :: "string \<Rightarrow> string \<Rightarrow> world \<Rightarrow> (error + unit) \<times> world" where
  "write_file path content w =
     (case fs w path of
        Some (Dir _) \<Rightarrow> (Inl (os_error IsADirectoryError path), w)
      | _ \<Rightarrow> (Inr (), w\<lparr>fs := (fs w)(path \<mapsto> File content)\<rparr>))"

text \<open>\<^verbatim>\<open>os.remove(path)\<close>.\<close>

definition os_remove :: "string \<Rightarrow> world \<Rightarrow> (error + unit) \<times> world" where
  "os_remove path w =
     (case fs w path of
        None \<Rightarrow> (Inl (os_error FileNotFoundError path), w)
      | Some (Dir _) \<Rightarrow> (Inl (os_error IsADirectoryError path), w)
      | Some (File _) \<Rightarrow> (Inr (), w\<lparr>fs := (fs w)(path := None)\<rparr>))"

text \<open>
  \<^verbatim>\<open>random.choice(xs)\<close> on a non-empty list: the next draw, reduced to an index.
\<close>

definition random_choice :: "'a list \<Rightarrow> world \<Rightarrow> 'a \<times> world" where
  "random_choice xs w =
     (case rand w of
        [] \<Rightarrow> (xs ! 0, w)
      | r # rs \<Rightarrow> (xs ! (r mod length xs), w\<lparr>rand := rs\<rparr>))"

subsection \<open>External programs\<close>

text \<open>
  Python's rendering of a command in the message of a \<open>CalledProcessError\<close>:
  the list of its words, each in single quotes.
\<close>

fun join_comma :: "string list \<Rightarrow> string" where
  "join_comma [] = []"
| "join_comma [x] = x"
| "join_comma (x # y # ys) = x @ '', '' @ join_comma (y # ys)"

definition called_process_error :: "string list \<Rightarrow> nat \<Rightarrow> error" where
  "called_process_error cmd status =
     (CalledProcessError,
      ''Command '' @ [sq] @ ''['' @ join_comma (map (\<lambda>a. [sq] @ a @ [sq]) cmd) @ '']'' @ [sq]
        @ '' returned non-zero exit status '' @ str_nat status @ ''.'')"

text \<open>
  What a finished command has done to the file system. Only \<^verbatim>\<open>rm -rf path\<close> touches
  it: when it exits with status 0 the path is gone.
\<close>

definition proc_effect :: "string list \<Rightarrow> nat \<Rightarrow> world \<Rightarrow> world" where
  "proc_effect cmd status w =
     (case cmd of
        [prog, flag, path] \<Rightarrow>
          if prog = ''rm'' \<and> flag = ''-rf'' \<and> status = 0
          then w\<lparr>fs := (fs w)(path := None)\<rparr> else w
      | _ \<Rightarrow> w)"

text \<open>\<^verbatim>\<open>subprocess.Popen(cmd)\<close>: start the program and do not wait for it.\<close>

definition popen :: "string list \<Rightarrow> world \<Rightarrow> (error + unit) \<times> world" where
  "popen cmd w =
     (case procs w cmd of
        None \<Rightarrow> (Inl (os_error FileNotFoundError (case cmd of [] \<Rightarrow> [] | p # _ \<Rightarrow> p)),
                 w\<lparr>ran := ran w @ [cmd]\<rparr>)
      | Some _ \<Rightarrow> (Inr (), w\<lparr>ran := ran w @ [cmd]\<rparr>))"

text \<open>
  \<^verbatim>\<open>subprocess.run(cmd, check=True)\<close> and \<^verbatim>\<open>subprocess.check_output(cmd)\<close>: run the
  program to its end; a missing program is a \<open>FileNotFoundError\<close>, an exit status other
  than 0 a \<open>CalledProcessError\<close>. The result is the standard output.
\<close>

definition subprocess_run :: "string list \<Rightarrow> world \<Rightarrow> (error + string) \<times> world" where
  "subprocess_run cmd w =
     (case procs w cmd of
        None \<Rightarrow> (Inl (os_error FileNotFoundError (case cmd of [] \<Rightarrow> [] | p # _ \<Rightarrow> p)),
                 w\<lparr>ran := ran w @ [cmd]\<rparr>)
      | Some (status, output) \<Rightarrow>
          (if status = 0 then Inr output else Inl (called_process_error cmd status),
           proc_effect cmd status (w\<lparr>ran := ran w @ [cmd]\<rparr>)))"

section \<open>The script\<close>

subsection \<open>\<^verbatim>\<open>choose_random_file\<close>\<close>

text \<open>
  The classes that \<^verbatim>\<open>except Exception\<close> catches: every class of the model but
  \<open>SystemExit\<close>.
\<close>

definition is_exception :: "exn \<Rightarrow> bool" where
  "is_exception k = (k \<noteq> SystemExit)"

text \<open>The body of the \<^verbatim>\<open>try\<close> block.\<close>

definition choose_random_file_body ::
    "string \<Rightarrow> string option \<Rightarrow> world \<Rightarrow> (error + string option) \<times> world" where
  "choose_random_file_body directory prefix w =
     (case listdir w directory of
        Inl e \<Rightarrow> (Inl e, w)
      | Inr all_files \<Rightarrow>
          (let matching_files =
                 filter (\<lambda>filename. case prefix of None \<Rightarrow> True | Some p \<Rightarrow> startswith filename p)
                   all_files
           in if matching_files = [] then
                (Inr None,
                 py_print
                   (case prefix of
                      None \<Rightarrow> ''No files found in '' @ [sq] @ directory @ [sq] @ ''.''
                    | Some p \<Rightarrow>
                        if p = [] then ''No files found in '' @ [sq] @ directory @ [sq] @ ''.''
                        else ''No files found in '' @ [sq] @ directory @ [sq]
                          @ '' matching the prefix '' @ [sq] @ p @ [sq] @ ''.'') w)
              else (case random_choice matching_files w of
                      (chosen_file, w1) \<Rightarrow> (Inr (Some chosen_file), w1))))"

text \<open>The \<^verbatim>\<open>try\<close> block with its two handlers.\<close>

definition choose_random_file ::
    "string \<Rightarrow> string option \<Rightarrow> world \<Rightarrow> (error + string option) \<times> world" where
  "choose_random_file directory prefix w =
     (case choose_random_file_body directory prefix w of
        (Inr r, w1) \<Rightarrow> (Inr r, w1)
      | (Inl e, w1) \<Rightarrow>
          if fst e = FileNotFoundError then
            (Inr None,
             py_print (''Error: Directory '' @ [sq] @ directory @ [sq] @ '' not found.'') w1)
          else if is_exception (fst e) then
            (Inr None, py_print (''An error occurred: '' @ snd e) w1)
          else (Inl e, w1))"

subsection \<open>The two service templates\<close>

text \<open>
  The text of each template is kept apart from the function that fills it in: the lines
  of the f-string, with the values it interpolates as parameters.
\<close>

definition gluetun_template :: "nat \<Rightarrow> string \<Rightarrow> string \<Rightarrow> nat \<Rightarrow> nat \<Rightarrow> string list" where
  "gluetun_template vpn_number server_location env_file http_proxy_port socks5_proxy_port =
     [''  gluetun_'' @ str_nat vpn_number @ '':'',
      ''    image: qmcgaw/gluetun'',
      ''    container_name: gluetun_nordvpn_'' @ str_nat vpn_number,
      ''    cap_add:'',
      ''      - NET_ADMIN'',
      ''    devices:'',
      ''      - /dev/net/tun'',
      ''    env_file:'',
      ''      - '' @ env_file,
      ''    environment:'',
      ''      - VPN_SERVICE=nordvpn'',
      ''      - VPN_TYPE=openvpn'',
      ''      - SERVER_COUNTRIES='' @ server_location,
      ''      - TZ=Europe/Berlin # Adjust as needed'',
      ''      - HTTPPROXY=on'',
      ''      - HTTPPROXY_PORT='' @ str_nat http_proxy_port,
      ''      - SOCKS5=on'',
      ''      - SOCKS5_PORT='' @ str_nat socks5_proxy_port,
      ''    ports:'',
      ''      - '' @ [dq] @ str_nat http_proxy_port @ '':'' @ str_nat http_proxy_port @ [dq]
        @ '' # HTTP Proxy'',
      ''      - '' @ [dq] @ str_nat socks5_proxy_port @ '':'' @ str_nat socks5_proxy_port @ [dq]
        @ '' # SOCKS5 Proxy'',
      ''    restart: unless-stopped'']"

definition generate_gluetun_service :: "nat \<Rightarrow> string \<Rightarrow> string \<Rightarrow> string" where
  "generate_gluetun_service vpn_number server_location env_file =
     (let http_proxy_port = 8888 + vpn_number;
          socks5_proxy_port = 1080 + vpn_number
      in triple_quoted
           (gluetun_template vpn_number server_location env_file http_proxy_port
              socks5_proxy_port))"

definition openvpn_proxy_template ::
    "nat \<Rightarrow> string \<Rightarrow> string \<Rightarrow> string \<Rightarrow> string \<Rightarrow> nat \<Rightarrow> string list" where
  "openvpn_proxy_template vpn_number openvpn_config_dir env_file openvpn_config_file local_ip
       http_proxy_port =
     [''  openvpn_proxy_'' @ str_nat vpn_number @ '':'',
      ''    image: jonoh/openvpn-proxy'',
      ''    container_name: openvpn_proxy_nordvpn_'' @ str_nat vpn_number,
      ''    cap_add:'',
      ''      - NET_ADMIN'',
      ''    devices:'',
      ''      - /dev/net/tun'',
      ''    volumes:'',
      ''      - '' @ openvpn_config_dir @ '':/config/openvpn'',
      ''    env_file:'',
      ''      - '' @ env_file,
      ''    environment:'',
      ''      - OPENVPN_CONFIG_FILE=/config/openvpn/'' @ openvpn_config_file,
      ''      - LOCAL_NETWORK='' @ local_ip @ ''/24 # Adjust as needed'',
      ''      - OPENVPN_PROXY_PORT='' @ str_nat http_proxy_port,
      ''    ports:'',
      ''      - '' @ [dq] @ str_nat http_proxy_port @ '':'' @ str_nat http_proxy_port @ [dq]
        @ '' # HTTP Proxy'',
      ''    restart: unless-stopped'']"

definition generate_openvpn_proxy_service ::
    "nat \<Rightarrow> string \<Rightarrow> string \<Rightarrow> string \<Rightarrow> world \<Rightarrow> (error + string) \<times> world" where
  "generate_openvpn_proxy_service vpn_number server_location openvpn_config_dir env_file w =
     (if \<not> path_exists w openvpn_config_dir then
        (Inl (FileNotFoundError,
              ''OpenVPN configuration directory '' @ [sq] @ openvpn_config_dir @ [sq]
                @ '' does not exist.''), w)
      else if \<not> path_isdir w openvpn_config_dir then
        (Inl (NotADirectoryError, [sq] @ openvpn_config_dir @ [sq] @ '' is not a directory.''), w)
      else
        (case choose_random_file openvpn_config_dir
                (if server_location \<noteq> ''any'' then Some server_location else None) w of
           (Inl e, w1) \<Rightarrow> (Inl e, w1)
         | (Inr openvpn_config_file, w1) \<Rightarrow>
             if openvpn_config_file = None \<or> openvpn_config_file = Some [] then
               (Inl (FileNotFoundError,
                     ''No OpenVPN configuration file found for location '' @ [sq]
                       @ server_location @ [sq] @ ''.''), w1)
             else
               (case subprocess_run [''hostname'', ''-I''] w1 of
                  (Inl e, w2) \<Rightarrow> (Inl e, w2)
                | (Inr output, w2) \<Rightarrow>
                    (case py_index (py_split output) 0 of
                       Inl e \<Rightarrow> (Inl e, w2)
                     | Inr local_ip \<Rightarrow>
                         (let http_proxy_port = 8888 + vpn_number
                          in (Inr (triple_quoted
                                     (openvpn_proxy_template vpn_number openvpn_config_dir
                                        env_file (the openvpn_config_file) local_ip
                                        http_proxy_port)),
                              w2))))))"

subsection \<open>\<^verbatim>\<open>generate_combined_docker_compose\<close>\<close>

text \<open>
  The loop over the slots \<open>i\<close>, with the list \<open>services\<close> built so far. An exception
  of a renderer, of the indexing of \<open>server_locations\<close> or of the method check leaves
  the loop at once.
\<close>

fun services_loop ::
    "nat list \<Rightarrow> string \<Rightarrow> string list \<Rightarrow> string \<Rightarrow> string \<Rightarrow> string list \<Rightarrow> world
      \<Rightarrow> (error + string list) \<times> world" where
  "services_loop [] method_choice server_locations env_file openvpn_config_dir services w =
     (Inr services, w)"
| "services_loop (i # slots) method_choice server_locations env_file openvpn_config_dir services w =
     (if method_choice = ''1'' then
        (case py_index server_locations (i - 1) of
           Inl e \<Rightarrow> (Inl e, w)
         | Inr location \<Rightarrow>
             services_loop slots method_choice server_locations env_file openvpn_config_dir
               (services @ [generate_gluetun_service i location env_file]) w)
      else if method_choice = ''2'' then
        (case py_index server_locations (i - 1) of
           Inl e \<Rightarrow> (Inl e, w)
         | Inr location \<Rightarrow>
             (case generate_openvpn_proxy_service i location openvpn_config_dir env_file w of
                (Inl e, w') \<Rightarrow> (Inl e, w')
              | (Inr service_content, w') \<Rightarrow>
                  services_loop slots method_choice server_locations env_file openvpn_config_dir
                    (services @ [service_content]) w'))
      else (Inl (ValueError, ''Invalid method choice.''), w))"

definition compose_file :: string where
  "compose_file = ''docker-compose.yml''"

definition generate_combined_docker_compose ::
    "nat \<Rightarrow> string \<Rightarrow> string list \<Rightarrow> string \<Rightarrow> string \<Rightarrow> world
      \<Rightarrow> (error + string \<times> string) \<times> world" where
  "generate_combined_docker_compose num_connections method_choice server_locations env_file
       openvpn_config_dir w =
     (case services_loop [1 ..< num_connections + 1] method_choice server_locations env_file
             openvpn_config_dir [] w of
        (Inl e, w1) \<Rightarrow> (Inl e, w1)
      | (Inr services, w1) \<Rightarrow>
          (let compose_content = ''services:'' @ [nl] @ join_nl services
           in case write_file compose_file compose_content w1 of
                (Inl e, w2) \<Rightarrow> (Inl e, w2)
              | (Inr _, w2) \<Rightarrow>
                  (Inr (compose_file, env_file),
                   py_print (''Generated combined docker-compose file: '' @ compose_file) w2)))"

subsection \<open>\<^verbatim>\<open>create_or_use_env_file\<close>\<close>

definition env_content :: "string \<Rightarrow> string \<Rightarrow> string" where
  "env_content nordvpn_username nordvpn_password =
     triple_quoted
       [''NORDVPN_USERNAME='' @ nordvpn_username,
        ''NORDVPN_PASSWORD='' @ nordvpn_password,
        ''OPENVPN_USERNAME='' @ nordvpn_username,
        ''OPENVPN_PASSWORD='' @ nordvpn_password]"

definition create_or_use_env_file ::
    "string \<Rightarrow> string \<Rightarrow> string \<Rightarrow> world \<Rightarrow> (error + unit) \<times> world" where
  "create_or_use_env_file env_file nordvpn_username nordvpn_password w =
     (if path_exists w env_file then
        (Inr (),
         py_print (''Environment file '' @ [sq] @ env_file @ [sq]
                     @ '' exists. Ignoring provided credentials.'') w)
      else if length nordvpn_username = 0 \<or> length nordvpn_password = 0 then
        (Inl (ValueError, ''Username and password must be provided to create a new .env file.''),
         w)
      else
        (case write_file env_file (env_content nordvpn_username nordvpn_password) w of
           (Inl e, w1) \<Rightarrow> (Inl e, w1)
         | (Inr _, w1) \<Rightarrow> (Inr (), py_print (''Generated environment file: '' @ env_file) w1)))"

subsection \<open>Starting and stopping the stack\<close>

definition start_vpn_connection :: "string \<Rightarrow> world \<Rightarrow> (error + bool) \<times> world" where
  "start_vpn_connection config_file w =
     (case subprocess_run [''docker-compose'', ''-f'', config_file, ''up'', ''-d''] w of
        (Inr _, w1) \<Rightarrow> (Inr True, py_print (''Started VPN connection using '' @ config_file) w1)
      | (Inl e, w1) \<Rightarrow>
          if fst e = CalledProcessError then
            (Inr False,
             py_print (''Error starting VPN connection with '' @ config_file @ '': '' @ snd e) w1)
          else (Inl e, w1))"

definition stop_command :: "string \<Rightarrow> string list" where
  "stop_command config_file = [''docker-compose'', ''-f'', config_file, ''down'']"

definition stop_vpn_connections :: "string \<Rightarrow> world \<Rightarrow> (error + unit) \<times> world" where
  "stop_vpn_connections config_file w =
     (case subprocess_run (stop_command config_file) w of
        (Inr _, w1) \<Rightarrow> (Inr (), py_print (''Stopped VPN connections using '' @ config_file) w1)
      | (Inl e, w1) \<Rightarrow>
          if fst e = FileNotFoundError then
            (Inr (), py_print (''Configuration file not found: '' @ config_file) w1)
          else if fst e = CalledProcessError then
            (Inr (),
             py_print (''Error stopping VPN connections with '' @ config_file @ '': '' @ snd e) w1)
          else (Inl e, w1))"

subsection \<open>\<^verbatim>\<open>display_proxy_info\<close>\<close>

fun proxy_info_loop :: "nat list \<Rightarrow> world \<Rightarrow> world" where
  "proxy_info_loop [] w = w"
| "proxy_info_loop (i # slots) w =
     (let http_port = 8888 + i;
          socks5_port = 1080 + i;
          w1 = py_print (''VPN Connection '' @ str_nat i @ '':'') w;
          w2 = py_print (''  HTTP Proxy: http://localhost:'' @ str_nat http_port) w1;
          w3 = py_print (''  SOCKS5 Proxy: socks5://localhost:'' @ str_nat socks5_port) w2
      in proxy_info_loop slots w3)"

definition display_proxy_info :: "nat \<Rightarrow> world \<Rightarrow> world" where
  "display_proxy_info num_connections w =
     (let w1 = py_print ([nl] @ ''--- Proxy Information ---'') w;
          w2 = py_print ''You can use the following addresses as proxies on your host machine:'' w1;
          w3 = py_print ''Note: Ensure the VPN-Proxy containers are running.'' w2;
          w4 = proxy_info_loop [1 ..< num_connections + 1] w3
      in py_print ''-------------------------'' w4)"

subsection \<open>\<^verbatim>\<open>open_browser_with_proxy\<close>\<close>

definition open_browser_with_proxy :: "string \<Rightarrow> string \<Rightarrow> string \<Rightarrow> string \<Rightarrow> world \<Rightarrow> world" where
  "open_browser_with_proxy proxy_type proxy_address profile_name url w =
     (let command =
            [''chromium-browser'',
             ''--proxy-server='' @ proxy_address,
             ''--user-data-dir=./chrome_profile_'' @ profile_name,
             ''--new-window'',
             url]
      in case popen command w of
           (Inr _, w1) \<Rightarrow>
             py_print (''Opened browser window with '' @ proxy_type @ '' proxy: '' @ proxy_address
                         @ '' (Profile: '' @ profile_name @ '')'') w1
         | (Inl e, w1) \<Rightarrow>
             if fst e = FileNotFoundError then
               py_print (''Error: chromium-browser not found. Please ensure it'' @ [sq]
                           @ ''s installed and in your PATH.'') w1
             else py_print (''Error opening browser: '' @ snd e) w1)"

subsection \<open>The main workflow\<close>

text \<open>
  \<^verbatim>\<open>arg or input(prompt)\<close>: the command-line value unless it is missing or empty.
\<close>

definition arg_or_input :: "string option \<Rightarrow> string \<Rightarrow> world \<Rightarrow> (error + string) \<times> world" where
  "arg_or_input arg prompt w =
     (case arg of
        None \<Rightarrow> py_input prompt w
      | Some s \<Rightarrow> if s = [] then py_input prompt w else (Inr s, w))"

text \<open>The credentials step of the main workflow.\<close>

definition main_credentials ::
    "string \<Rightarrow> string option \<Rightarrow> string option \<Rightarrow> world \<Rightarrow> (error + unit) \<times> world" where
  "main_credentials env_file username_arg password_arg w =
     (if \<not> path_exists w env_file then
        (case arg_or_input username_arg ''Enter your NordVPN (OpenVPN) username: '' w of
           (Inl e, w1) \<Rightarrow> (Inl e, w1)
         | (Inr nordvpn_username, w1) \<Rightarrow>
             (case arg_or_input password_arg ''Enter your NordVPN (OpenVPN) password: '' w1 of
                (Inl e, w2) \<Rightarrow> (Inl e, w2)
              | (Inr nordvpn_password, w2) \<Rightarrow>
                  create_or_use_env_file env_file nordvpn_username nordvpn_password w2))
      else
        create_or_use_env_file env_file [] []
          (py_print (''Using existing environment file: '' @ env_file) w))"

text \<open>The cleanup step: the body of the branch taken when the user answers yes.\<close>

fun profile_loop :: "nat list \<Rightarrow> world \<Rightarrow> (error + unit) \<times> world" where
  "profile_loop [] w = (Inr (), w)"
| "profile_loop (i # slots) w =
     (let profile_dir = ''chrome_profile_'' @ str_nat i
      in case subprocess_run [''rm'', ''-rf'', profile_dir] w of
           (Inr _, w1) \<Rightarrow> profile_loop slots (py_print (''Deleted directory: '' @ profile_dir) w1)
         | (Inl e, w1) \<Rightarrow>
             if fst e = FileNotFoundError then profile_loop slots w1
             else if fst e = CalledProcessError then
               profile_loop slots
                 (py_print (''Error deleting directory '' @ profile_dir @ '': '' @ snd e) w1)
             else (Inl e, w1))"

text \<open>\<^verbatim>\<open>try: os.remove(path); print(...) except FileNotFoundError: pass\<close>.\<close>

definition remove_if_present :: "string \<Rightarrow> world \<Rightarrow> (error + unit) \<times> world" where
  "remove_if_present path w =
     (case os_remove path w of
        (Inr _, w1) \<Rightarrow> (Inr (), py_print (''Deleted: '' @ path) w1)
      | (Inl e, w1) \<Rightarrow> if fst e = FileNotFoundError then (Inr (), w1) else (Inl e, w1))"

definition cleanup_step :: "string \<Rightarrow> string \<Rightarrow> nat \<Rightarrow> world \<Rightarrow> (error + unit) \<times> world" where
  "cleanup_step config_file env_file num_connections w =
     (case remove_if_present config_file w of
        (Inl e, w1) \<Rightarrow> (Inl e, w1)
      | (Inr _, w1) \<Rightarrow>
          (case remove_if_present env_file w1 of
             (Inl e, w2) \<Rightarrow> (Inl e, w2)
           | (Inr _, w2) \<Rightarrow>
               (case profile_loop [1 ..< num_connections + 1] w2 of
                  (Inl e, w3) \<Rightarrow> (Inl e, w3)
                | (Inr _, w3) \<Rightarrow> (Inr (), py_print ''Cleanup complete.'' w3))))"

text \<open>The browser loop of the session.\<close>

fun browser_loop :: "nat list \<Rightarrow> string option \<Rightarrow> world \<Rightarrow> world" where
  "browser_loop [] url_arg w = w"
| "browser_loop (i # slots) url_arg w =
     (let http_port = 8888 + i
      in browser_loop slots url_arg
           (open_browser_with_proxy ''http'' (''localhost:'' @ str_nat http_port) (str_nat i)
              (case url_arg of
                 None \<Rightarrow> ''about:blank''
               | Some u \<Rightarrow> if u = [] then ''about:blank'' else u) w))"

text \<open>
  The part of the \<^verbatim>\<open>try\<close> block after a successful start: the proxy information,
  the optional browser windows and the wait for the user.
\<close>

definition session_interactive :: "nat \<Rightarrow> string option \<Rightarrow> world \<Rightarrow> (error + unit) \<times> world" where
  "session_interactive num_connections url_arg w =
     (let w1 = py_print ([nl] @ ''All VPN connections started successfully!'') w;
          w2 = display_proxy_info num_connections w1
      in case py_input ([nl] @ ''Do you want to automatically open browser windows with the configured proxies? (yes/no): '') w2 of
           (Inl e, w3) \<Rightarrow> (Inl e, w3)
         | (Inr open_browsers, w3) \<Rightarrow>
             (let w4 =
                    (if lower open_browsers = ''yes'' then
                       py_print ([nl] @ ''Browser windows opened. Each window is configured to use a different VPN connection.'')
                         (browser_loop [1 ..< num_connections + 1] url_arg
                            (py_print ([nl] @ ''Opening browser windows...'') w3))
                     else w3)
              in case py_input ([nl] @ ''Press Enter to stop all VPN connections...'') w4 of
                   (Inl e, w5) \<Rightarrow> (Inl e, w5)
                 | (Inr _, w5) \<Rightarrow> (Inr (), w5)))"

text \<open>
  The \<^verbatim>\<open>try\<close> block. Besides its outcome and the world it returns the binding of the
  variable \<open>config_file\<close>: \<open>None\<close> while the assignment from
  \<open>generate_combined_docker_compose\<close> has not happened. The main workflow calls the
  generator without a configuration directory, so the default applies.
\<close>

definition session_body ::
    "nat \<Rightarrow> string \<Rightarrow> string list \<Rightarrow> string \<Rightarrow> string option \<Rightarrow> world
      \<Rightarrow> (error + unit) \<times> string option \<times> world" where
  "session_body num_connections method_choice server_locations env_file url_arg w =
     (case generate_combined_docker_compose num_connections method_choice server_locations
             env_file ''/etc/openvpn/ovpn_tcp'' w of
        (Inl e, w1) \<Rightarrow> (Inl e, None, w1)
      | (Inr (config_file, env_file'), w1) \<Rightarrow>
          (let w2 = py_print ([nl] @ ''Generated Docker Compose file: '' @ config_file) w1;
               w3 = py_print (''Generated environment file: '' @ env_file') w2;
               w4 = py_print ([nl] @ ''Starting VPN connections...'') w3
           in case start_vpn_connection config_file w4 of
                (Inl e, w5) \<Rightarrow> (Inl e, Some config_file, w5)
              | (Inr started, w5) \<Rightarrow>
                  if \<not> started then
                    (Inl (SystemExit, ''1''), Some config_file,
                     py_print ''Failed to start VPN connections. Check the logs for errors.'' w5)
                  else (case session_interactive num_connections url_arg w5 of
                          (r, w6) \<Rightarrow> (r, Some config_file, w6))))"

text \<open>
  The \<^verbatim>\<open>finally\<close> block. Reading \<open>config_file\<close> while it is unbound raises a
  \<open>NameError\<close>, before \<open>stop_vpn_connections\<close> is called.
\<close>

definition session_finally ::
    "string option \<Rightarrow> string \<Rightarrow> nat \<Rightarrow> world \<Rightarrow> (error + unit) \<times> world" where
  "session_finally config_file_var env_file num_connections w =
     (let w1 = py_print ([nl] @ ''Stopping all VPN connections...'') w
      in case config_file_var of
           None \<Rightarrow> (Inl (NameError, ''name '' @ [sq] @ ''config_file'' @ [sq] @ '' is not defined''), w1)
         | Some config_file \<Rightarrow>
             (case stop_vpn_connections config_file w1 of
                (Inl e, w2) \<Rightarrow> (Inl e, w2)
              | (Inr _, w2) \<Rightarrow>
                  (let w3 = py_print ''All VPN connections stopped.'' w2
                   in case py_input ''Do you want to delete the generated configuration and environment files and Chrome profile directories? (yes/no): '' w3 of
                        (Inl e, w4) \<Rightarrow> (Inl e, w4)
                      | (Inr cleanup, w4) \<Rightarrow>
                          if lower cleanup = ''yes''
                          then cleanup_step config_file env_file num_connections w4
                          else (Inr (), w4))))"

text \<open>
  \<^verbatim>\<open>try: ... finally: ...\<close>: the \<^verbatim>\<open>finally\<close> block runs whatever the outcome of the
  \<^verbatim>\<open>try\<close> block; an exception of its own replaces that outcome.
\<close>

definition main_session ::
    "nat \<Rightarrow> string \<Rightarrow> string list \<Rightarrow> string \<Rightarrow> string option \<Rightarrow> world \<Rightarrow> (error + unit) \<times> world" where
  "main_session num_connections method_choice server_locations env_file url_arg w =
     (case session_body num_connections method_choice server_locations env_file url_arg w of
        (r, config_file_var, w1) \<Rightarrow>
          (case session_finally config_file_var env_file num_connections w1 of
             (Inl e, w2) \<Rightarrow> (Inl e, w2)
           | (Inr _, w2) \<Rightarrow> (r, w2)))"

section \<open>Reading what the script produces\<close>

text \<open>
  The claims speak about the text the script writes: the service blocks of the
  manifest and the ports they publish, the keys of the credentials file. The
  functions of this section read these texts back.
\<close>

text \<open>\<^verbatim>\<open>s.split("\n")\<close>: the lines of a text.\<close>

fun split_lines :: "string \<Rightarrow> string list" where
  "split_lines [] = [[]]"
| "split_lines (c # cs) =
     (if c = nl then [] # split_lines cs
      else (case split_lines cs of [] \<Rightarrow> [[c]] | l # ls \<Rightarrow> (c # l) # ls))"


text \<open>
  A manifest is read as its lines that are not blank. Under the first line
  \<open>services:\<close>, a line indented by exactly two spaces that ends with a colon opens a
  service block; the block runs to the next such line.
\<close>

definition is_service_header :: "string \<Rightarrow> bool" where
  "is_service_header l =
     (case l of
        a # b # c # _ \<Rightarrow> a = CHR '' '' \<and> b = CHR '' '' \<and> c \<noteq> CHR '' '' \<and> last l = CHR '':''
      | _ \<Rightarrow> False)"

fun service_blocks :: "string list \<Rightarrow> string list list" where
  "service_blocks [] = []"
| "service_blocks (l # ls) =
     (if is_service_header l
      then (l # takeWhile (\<lambda>x. \<not> is_service_header x) ls) # service_blocks ls
      else service_blocks ls)"

definition manifest_blocks :: "string \<Rightarrow> string list list" where
  "manifest_blocks text =
     (case filter (\<lambda>l. l \<noteq> []) (split_lines text) of
        [] \<Rightarrow> []
      | first # rest \<Rightarrow> if first = ''services:'' then service_blocks rest else [])"

text \<open>
  The port mappings a block publishes: the list items that follow its line
  \<open>ports:\<close>, each read as the pair of the host port and the container port between
  the double quotes.
\<close>

definition is_digit :: "char \<Rightarrow> bool" where
  "is_digit c = (c \<in> set ''0123456789'')"

definition nat_of_digits :: "string \<Rightarrow> nat" where
  "nat_of_digits s = foldl (\<lambda>a c. 10 * a + (of_char c - 48)) 0 s"

definition port_mapping :: "string \<Rightarrow> nat \<times> nat" where
  "port_mapping l =
     (let body = drop 9 l;
          host = takeWhile is_digit body;
          rest = drop 1 (dropWhile is_digit body);
          container = takeWhile is_digit rest
      in (nat_of_digits host, nat_of_digits container))"

definition block_ports :: "string list \<Rightarrow> (nat \<times> nat) list" where
  "block_ports b =
     map port_mapping
       (takeWhile (\<lambda>l. startswith l (''      - '' @ [dq]))
          (drop 1 (dropWhile (\<lambda>l. l \<noteq> ''    ports:'') b)))"

text \<open>The manifest a world holds, and its blocks after a run of the generator.\<close>

definition manifest_text :: "world \<Rightarrow> string" where
  "manifest_text w = (case fs w compose_file of Some (File text) \<Rightarrow> text | _ \<Rightarrow> [])"

definition generated_blocks ::
    "nat \<Rightarrow> string \<Rightarrow> string list \<Rightarrow> string \<Rightarrow> string \<Rightarrow> world \<Rightarrow> string list list" where
  "generated_blocks n m locs env dir w =
     manifest_blocks (manifest_text (snd (generate_combined_docker_compose n m locs env dir w)))"

text \<open>
  The shape of the lines of one rendered template: a header line, then lines that are
  no headers, none of them blank or holding a line feed.
\<close>

definition template_block :: "string list \<Rightarrow> bool" where
  "template_block ls =
     (ls \<noteq> [] \<and> is_service_header (hd ls)
      \<and> list_all (\<lambda>l. \<not> is_service_header l) (tl ls)
      \<and> list_all (\<lambda>l. l \<noteq> [] \<and> nl \<notin> set l) ls)"

text \<open>Whether a text occurs inside another.\<close>

fun occurs :: "string \<Rightarrow> string \<Rightarrow> bool" where
  "occurs sub [] = (sub = [])"
| "occurs sub (c # cs) = (startswith (c # cs) sub \<or> occurs sub cs)"

text \<open>
  The location filter in the words of the specification: \<open>any\<close> admits every file,
  any other value the files whose name starts with it.
\<close>

definition location_admits :: "string \<Rightarrow> string \<Rightarrow> bool" where
  "location_admits location filename = (location = ''any'' \<or> startswith filename location)"

section \<open>Example worlds\<close>

definition empty_world :: world where
  "empty_world =
     \<lparr>fs = Map.empty, out = [], stdin = [], procs = (\<lambda>_. None), ran = [], rand = []\<rparr>"

definition world_with_env :: world where
  "world_with_env =
     empty_world\<lparr>fs := [''.env-nordvpn'' \<mapsto> File ''OPENVPN_USERNAME=alice'']\<rparr>"

definition config_dir :: string where
  "config_dir = ''/etc/openvpn/ovpn_tcp''"

definition world_with_configs :: world where
  "world_with_configs =
     world_with_env
       \<lparr>fs := (fs world_with_env)
          (config_dir \<mapsto>
             Dir (Some [''us1234.nordvpn.com.tcp.ovpn'', ''de987.nordvpn.com.tcp.ovpn'',
                        ''us5678.nordvpn.com.tcp.ovpn''])),
        procs := [[''hostname'', ''-I''] \<mapsto> (0, ''192.168.1.23 172.17.0.1 '' @ [nl])],
        rand := [1, 0]\<rparr>"

definition world_locked_configs :: world where
  "world_locked_configs = world_with_env\<lparr>fs := (fs world_with_env)(config_dir \<mapsto> Dir None)\<rparr>"

definition world_after_session :: world where
  "world_after_session =
     world_with_env
       \<lparr>fs := (fs world_with_env)
          (compose_file \<mapsto> File (''services:'' @ [nl]),
           ''chrome_profile_1'' \<mapsto> Dir (Some [''Default''])),
        procs := [[''rm'', ''-rf'', ''chrome_profile_1''] \<mapsto> (0, []),
                  [''rm'', ''-rf'', ''chrome_profile_2''] \<mapsto> (1, [])]\<rparr>"

section \<open>The credentials file\<close>

lemma split_lines_line: "nl \<notin> set a \<Longrightarrow> split_lines (a @ nl # b) = a # split_lines b"
  by (induction a) auto

lemma split_lines_terminated:
  "(\<And>l. l \<in> set ls \<Longrightarrow> nl \<notin> set l) \<Longrightarrow>
     split_lines (concat (map (\<lambda>l. l @ [nl]) ls) @ rest) = ls @ split_lines rest"
  by (induction ls) (auto simp: split_lines_line)

lemma split_lines_triple_quoted:
  "(\<And>l. l \<in> set ls \<Longrightarrow> nl \<notin> set l) \<Longrightarrow>
     split_lines (triple_quoted ls @ rest) = [] # ls @ split_lines rest"
  unfolding triple_quoted_def using split_lines_terminated[of ls rest] by simp


text \<open>
  Claim C3. When the credentials file exists, \<open>create_or_use_env_file\<close> leaves the
  whole file system, and with it the content of the file, as it was, whatever user name
  and password are supplied (empty ones too), and its outcome does not depend on them.
\<close>

theorem existing_env_file_untouched:
  "fs w env_file = Some (File content) \<Longrightarrow>
     fs (snd (create_or_use_env_file env_file u p w)) = fs w
   \<and> fs (snd (create_or_use_env_file env_file u p w)) env_file = Some (File content)
   \<and> create_or_use_env_file env_file u p w = create_or_use_env_file env_file u' p' w"
  by (simp add: create_or_use_env_file_def path_exists_def py_print_def)

theorem existing_env_file_untouched_witness:
  "fs world_with_env ''.env-nordvpn'' = Some (File ''OPENVPN_USERNAME=alice'')
   \<and> fs (snd (create_or_use_env_file ''.env-nordvpn'' ''bob'' [] world_with_env)) = fs world_with_env
   \<and> fs (snd (create_or_use_env_file ''.env-nordvpn'' ''bob'' [] world_with_env)) ''.env-nordvpn''
       = Some (File ''OPENVPN_USERNAME=alice'')
   \<and> create_or_use_env_file ''.env-nordvpn'' ''bob'' [] world_with_env
       = create_or_use_env_file ''.env-nordvpn'' ''carol'' ''pw'' world_with_env"
proof (rule conjI)
  show h: "fs world_with_env ''.env-nordvpn'' = Some (File ''OPENVPN_USERNAME=alice'')"
    by (simp add: world_with_env_def)
  show "fs (snd (create_or_use_env_file ''.env-nordvpn'' ''bob'' [] world_with_env)) = fs world_with_env
   \<and> fs (snd (create_or_use_env_file ''.env-nordvpn'' ''bob'' [] world_with_env)) ''.env-nordvpn''
       = Some (File ''OPENVPN_USERNAME=alice'')
   \<and> create_or_use_env_file ''.env-nordvpn'' ''bob'' [] world_with_env
       = create_or_use_env_file ''.env-nordvpn'' ''carol'' ''pw'' world_with_env"
    by (rule existing_env_file_untouched[OF h])
qed

text \<open>
  Claim C9. When the credentials file exists, \<open>create_or_use_env_file\<close> returns
  normally for every user name and password, both empty included: the check for empty
  credentials is on the creation path only. The credentials step of the main workflow,
  which calls it with two empty strings in this case, returns normally as well.
\<close>

theorem existing_env_file_never_raises:
  "path_exists w env_file \<Longrightarrow>
     fst (create_or_use_env_file env_file u p w) = Inr ()
   \<and> fst (create_or_use_env_file env_file [] [] w) = Inr ()
   \<and> fst (main_credentials env_file username_arg password_arg w) = Inr ()"
  by (simp add: create_or_use_env_file_def main_credentials_def path_exists_def py_print_def)

theorem existing_env_file_never_raises_witness:
  "path_exists world_with_env ''.env-nordvpn''
   \<and> fst (create_or_use_env_file ''.env-nordvpn'' ''bob'' [] world_with_env) = Inr ()
   \<and> fst (create_or_use_env_file ''.env-nordvpn'' [] [] world_with_env) = Inr ()
   \<and> fst (main_credentials ''.env-nordvpn'' None None world_with_env) = Inr ()"
proof (rule conjI)
  show h: "path_exists world_with_env ''.env-nordvpn''"
    by (simp add: world_with_env_def path_exists_def)
  show "fst (create_or_use_env_file ''.env-nordvpn'' ''bob'' [] world_with_env) = Inr ()
   \<and> fst (create_or_use_env_file ''.env-nordvpn'' [] [] world_with_env) = Inr ()
   \<and> fst (main_credentials ''.env-nordvpn'' None None world_with_env) = Inr ()"
    by (rule existing_env_file_never_raises[OF h])
qed



section \<open>Choosing a configuration file\<close>

lemma listdir_cases:
  "listdir w d = Inr names \<longleftrightarrow> fs w d = Some (Dir (Some names))"
  by (auto simp: listdir_def split: option.splits node.splits)

lemma listdir_error_is_exception:
  "listdir w d = Inl e \<Longrightarrow> is_exception (fst e)"
  by (auto simp: listdir_def os_error_def is_exception_def split: option.splits node.splits)

lemma random_choice_member:
  "xs \<noteq> [] \<Longrightarrow> fst (random_choice xs w) \<in> set xs"
  by (auto simp: random_choice_def split: list.splits)

lemma choose_random_file_listing_error:
  "listdir w d = Inl e \<Longrightarrow> fst (choose_random_file d prefix w) = Inr None"
  using listdir_error_is_exception[of w d e]
  by (simp add: choose_random_file_def choose_random_file_body_def)

lemma choose_random_file_none_match:
  "listdir w d = Inr names \<Longrightarrow>
   filter (\<lambda>f. case prefix of None \<Rightarrow> True | Some p \<Rightarrow> startswith f p) names = [] \<Longrightarrow>
   fst (choose_random_file d prefix w) = Inr None"
  by (simp add: choose_random_file_def choose_random_file_body_def)

lemma choose_random_file_some_match:
  "listdir w d = Inr names \<Longrightarrow>
   filter (\<lambda>f. case prefix of None \<Rightarrow> True | Some p \<Rightarrow> startswith f p) names \<noteq> [] \<Longrightarrow>
   choose_random_file d prefix w =
     (Inr (Some (fst (random_choice
        (filter (\<lambda>f. case prefix of None \<Rightarrow> True | Some p \<Rightarrow> startswith f p) names) w))),
      snd (random_choice
        (filter (\<lambda>f. case prefix of None \<Rightarrow> True | Some p \<Rightarrow> startswith f p) names) w))"
  by (simp add: choose_random_file_def choose_random_file_body_def split: prod.splits)

text \<open>
  Claim C10. \<open>choose_random_file\<close> never raises: for every directory path and
  prefix it returns \<open>None\<close> or the name of an entry of the directory that passes the
  prefix filter. A missing directory, a listing that fails and a listing with no
  matching entry all give \<open>None\<close>.
\<close>

theorem choose_random_file_total:
  "(fst (choose_random_file directory prefix w) = Inr None
    \<or> (\<exists>names f. listdir w directory = Inr names \<and> f \<in> set names
          \<and> (case prefix of None \<Rightarrow> True | Some p \<Rightarrow> startswith f p)
          \<and> fst (choose_random_file directory prefix w) = Inr (Some f)))
   \<and> (fs w directory = None \<longrightarrow> fst (choose_random_file directory prefix w) = Inr None)
   \<and> (isl (listdir w directory) \<longrightarrow> fst (choose_random_file directory prefix w) = Inr None)
   \<and> (\<forall>names. listdir w directory = Inr names
          \<and> filter (\<lambda>f. case prefix of None \<Rightarrow> True | Some p \<Rightarrow> startswith f p) names = []
        \<longrightarrow> fst (choose_random_file directory prefix w) = Inr None)"
proof (intro conjI)
  show "fst (choose_random_file directory prefix w) = Inr None
    \<or> (\<exists>names f. listdir w directory = Inr names \<and> f \<in> set names
          \<and> (case prefix of None \<Rightarrow> True | Some p \<Rightarrow> startswith f p)
          \<and> fst (choose_random_file directory prefix w) = Inr (Some f))"
  proof (cases "listdir w directory")
    case (Inl e)
    then show ?thesis by (simp add: choose_random_file_listing_error)
  next
    case (Inr names)
    let ?m = "filter (\<lambda>f. case prefix of None \<Rightarrow> True | Some p \<Rightarrow> startswith f p) names"
    show ?thesis
    proof (cases "?m = []")
      case True
      with Inr show ?thesis by (simp add: choose_random_file_none_match)
    next
      case False
      from random_choice_member[OF False, of w]
      have "fst (random_choice ?m w) \<in> set names
            \<and> (case prefix of None \<Rightarrow> True | Some p \<Rightarrow> startswith (fst (random_choice ?m w)) p)"
        by auto
      with Inr False choose_random_file_some_match[OF Inr False] show ?thesis
        by auto
    qed
  qed
next
  show "fs w directory = None \<longrightarrow> fst (choose_random_file directory prefix w) = Inr None"
    by (auto simp: choose_random_file_def choose_random_file_body_def listdir_def os_error_def)
next
  show "isl (listdir w directory) \<longrightarrow> fst (choose_random_file directory prefix w) = Inr None"
    by (cases "listdir w directory") (auto simp: choose_random_file_listing_error)
next
  show "\<forall>names. listdir w directory = Inr names
          \<and> filter (\<lambda>f. case prefix of None \<Rightarrow> True | Some p \<Rightarrow> startswith f p) names = []
        \<longrightarrow> fst (choose_random_file directory prefix w) = Inr None"
    by (auto simp: choose_random_file_none_match)
qed

theorem choose_random_file_total_witness:
  "fs empty_world config_dir = None
   \<and> fst (choose_random_file config_dir (Some ''us'') empty_world) = Inr None
   \<and> isl (listdir world_locked_configs config_dir)
   \<and> fst (choose_random_file config_dir None world_locked_configs) = Inr None
   \<and> listdir world_with_configs config_dir
        = Inr [''us1234.nordvpn.com.tcp.ovpn'', ''de987.nordvpn.com.tcp.ovpn'',
               ''us5678.nordvpn.com.tcp.ovpn'']
   \<and> fst (choose_random_file config_dir (Some ''fr'') world_with_configs) = Inr None"
proof -
  have a: "fs empty_world config_dir = None"
    by (simp add: empty_world_def)
  have b: "isl (listdir world_locked_configs config_dir)"
    by (simp add: world_locked_configs_def listdir_def)
  have c: "listdir world_with_configs config_dir
        = Inr [''us1234.nordvpn.com.tcp.ovpn'', ''de987.nordvpn.com.tcp.ovpn'',
               ''us5678.nordvpn.com.tcp.ovpn'']"
    by (simp add: world_with_configs_def listdir_def)
  have d: "filter (\<lambda>f. case Some ''fr'' of None \<Rightarrow> True | Some p \<Rightarrow> startswith f p)
             [''us1234.nordvpn.com.tcp.ovpn'', ''de987.nordvpn.com.tcp.ovpn'',
              ''us5678.nordvpn.com.tcp.ovpn''] = []"
    by (simp add: startswith_def)
  from choose_random_file_total[of config_dir "Some ''us''" empty_world]
       choose_random_file_total[of config_dir None world_locked_configs]
       choose_random_file_total[of config_dir "Some ''fr''" world_with_configs]
       a b c d
  show ?thesis by blast
qed

lemma source_filter_is_location_filter:
  "filter (\<lambda>f. case (if loc \<noteq> ''any'' then Some loc else None) of
                  None \<Rightarrow> True | Some p \<Rightarrow> startswith f p) names
     = filter (location_admits loc) names"
  by (rule filter_cong) (auto simp: location_admits_def)

lemma random_choice_draw:
  "rand w = k # rs \<Longrightarrow> k < length xs \<Longrightarrow> fst (random_choice xs w) = xs ! k"
  by (simp add: random_choice_def)

text \<open>
  Claim C4. For a configuration directory with the listing \<open>names\<close> and any
  location: when no entry is admitted by the location filter (\<open>any\<close> admits all,
  another value the names that start with it), the selection returns \<open>None\<close> and
  \<open>generate_openvpn_proxy_service\<close> raises \<open>FileNotFoundError\<close>; otherwise the
  selection returns an admitted entry, and each admitted entry is returned for some
  draw of the random generator.
\<close>

theorem location_filter_selection:
  assumes dir: "fs w dir = Some (Dir (Some names))"
  shows "(filter (location_admits loc) names = [] \<longrightarrow>
            fst (choose_random_file dir (if loc \<noteq> ''any'' then Some loc else None) w) = Inr None
          \<and> (\<exists>msg. fst (generate_openvpn_proxy_service i loc dir env w)
                     = Inl (FileNotFoundError, msg)))
       \<and> (filter (location_admits loc) names \<noteq> [] \<longrightarrow>
            (\<exists>f. fst (choose_random_file dir (if loc \<noteq> ''any'' then Some loc else None) w)
                    = Inr (Some f)
                \<and> f \<in> set names \<and> location_admits loc f))
       \<and> (\<forall>k rs. k < length (filter (location_admits loc) names) \<and> rand w = k # rs \<longrightarrow>
            fst (choose_random_file dir (if loc \<noteq> ''any'' then Some loc else None) w)
              = Inr (Some (filter (location_admits loc) names ! k)))"
proof -
  let ?prefix = "if loc \<noteq> ''any'' then Some loc else None"
  let ?m = "filter (location_admits loc) names"
  have ls: "listdir w dir = Inr names"
    using dir by (simp add: listdir_cases)
  have ex: "path_exists w dir" "path_isdir w dir"
    using dir by (simp_all add: path_exists_def path_isdir_def)
  have none: "?m = [] \<Longrightarrow> fst (choose_random_file dir ?prefix w) = Inr None"
    using choose_random_file_none_match[OF ls, of ?prefix]
    by (simp only: source_filter_is_location_filter)
  have some: "?m \<noteq> [] \<Longrightarrow>
      fst (choose_random_file dir ?prefix w) = Inr (Some (fst (random_choice ?m w)))"
    using choose_random_file_some_match[OF ls, of ?prefix]
    by (simp only: source_filter_is_location_filter) simp
  have raise: "?m = [] \<Longrightarrow>
      \<exists>msg. fst (generate_openvpn_proxy_service i loc dir env w) = Inl (FileNotFoundError, msg)"
  proof -
    assume e: "?m = []"
    obtain w1 where "choose_random_file dir ?prefix w = (Inr None, w1)"
      using none[OF e] by (cases "choose_random_file dir ?prefix w") auto
    then show ?thesis
      using ex by (simp add: generate_openvpn_proxy_service_def)
  qed
  have mem: "?m \<noteq> [] \<Longrightarrow> fst (random_choice ?m w) \<in> set names
      \<and> location_admits loc (fst (random_choice ?m w))"
    using random_choice_member[of ?m w] by auto
  have draw: "\<And>k rs. k < length ?m \<Longrightarrow> rand w = k # rs \<Longrightarrow>
      fst (choose_random_file dir ?prefix w) = Inr (Some (?m ! k))"
  proof -
    fix k rs assume k: "k < length ?m" and r: "rand w = k # rs"
    from k have "?m \<noteq> []" by auto
    with some random_choice_draw[OF r k] show
      "fst (choose_random_file dir ?prefix w) = Inr (Some (?m ! k))" by simp
  qed
  show ?thesis
    using none raise some mem draw by blast
qed

theorem location_filter_selection_witness:
  "fs world_with_configs config_dir
     = Some (Dir (Some [''us1234.nordvpn.com.tcp.ovpn'', ''de987.nordvpn.com.tcp.ovpn'',
                        ''us5678.nordvpn.com.tcp.ovpn'']))
   \<and> fst (choose_random_file config_dir None world_with_configs)
       = Inr (Some ''de987.nordvpn.com.tcp.ovpn'')
   \<and> fst (choose_random_file config_dir (Some ''us'') world_with_configs)
       = Inr (Some ''us5678.nordvpn.com.tcp.ovpn'')
   \<and> fst (choose_random_file config_dir (Some ''fr'') world_with_configs) = Inr None
   \<and> (\<exists>msg. fst (generate_openvpn_proxy_service 1 ''fr'' config_dir ''.env-nordvpn''
                     world_with_configs) = Inl (FileNotFoundError, msg))"
proof -
  let ?names = "[''us1234.nordvpn.com.tcp.ovpn'', ''de987.nordvpn.com.tcp.ovpn'',
                 ''us5678.nordvpn.com.tcp.ovpn'']"
  have h: "fs world_with_configs config_dir = Some (Dir (Some ?names))"
    by (simp add: world_with_configs_def)
  have r: "rand world_with_configs = 1 # [0]"
    by (simp add: world_with_configs_def)
  have any: "filter (location_admits ''any'') ?names = ?names"
    by (simp add: location_admits_def)
  have us: "filter (location_admits ''us'') ?names
              = [''us1234.nordvpn.com.tcp.ovpn'', ''us5678.nordvpn.com.tcp.ovpn'']"
    by (simp add: location_admits_def startswith_def)
  have fr: "filter (location_admits ''fr'') ?names = []"
    by (simp add: location_admits_def startswith_def)
  from location_filter_selection[OF h, of "''any''" 1 "''.env-nordvpn''"] r
  have 1: "fst (choose_random_file config_dir None world_with_configs)
             = Inr (Some ''de987.nordvpn.com.tcp.ovpn'')"
    unfolding any by simp
  from location_filter_selection[OF h, of "''us''" 1 "''.env-nordvpn''"] r
  have 2: "fst (choose_random_file config_dir (Some ''us'') world_with_configs)
             = Inr (Some ''us5678.nordvpn.com.tcp.ovpn'')"
    unfolding us by simp
  from location_filter_selection[OF h, of "''fr''" 1 "''.env-nordvpn''"]
  have 3: "fst (choose_random_file config_dir (Some ''fr'') world_with_configs) = Inr None
     \<and> (\<exists>msg. fst (generate_openvpn_proxy_service 1 ''fr'' config_dir ''.env-nordvpn''
                     world_with_configs) = Inl (FileNotFoundError, msg))"
    unfolding fr by simp
  from h 1 2 3 show ?thesis by blast
qed

section \<open>Failures of the manifest generator\<close>

lemma fs_py_print [simp]: "fs (py_print s w) = fs w"
  by (simp add: py_print_def)

lemma procs_py_print [simp]: "procs (py_print s w) = procs w"
  by (simp add: py_print_def)

lemma random_choice_fs: "random_choice xs w = (x, w1) \<Longrightarrow> fs w1 = fs w"
  by (auto simp: random_choice_def split: list.splits)

lemma choose_random_file_body_fs: "choose_random_file_body d p w = (x, w1) \<Longrightarrow> fs w1 = fs w"
  by (auto simp: choose_random_file_body_def Let_def dest: random_choice_fs
      split: sum.splits prod.splits if_splits)

lemma choose_random_file_fs: "choose_random_file d p w = (x, w1) \<Longrightarrow> fs w1 = fs w"
  by (auto simp: choose_random_file_def dest: choose_random_file_body_fs
      split: sum.splits prod.splits if_splits)

lemma hostname_fs: "subprocess_run [''hostname'', ''-I''] w = (x, w1) \<Longrightarrow> fs w1 = fs w"
  by (auto simp: subprocess_run_def proc_effect_def split: option.splits prod.splits)

lemma generate_openvpn_proxy_service_fs:
  assumes "generate_openvpn_proxy_service i loc dir env w = (x, w')"
  shows "fs w' = fs w"
proof -
  let ?p = "if loc \<noteq> ''any'' then Some loc else None"
  obtain r w1 where c: "choose_random_file dir ?p w = (r, w1)"
    by (cases "choose_random_file dir ?p w")
  obtain h w2 where s: "subprocess_run [''hostname'', ''-I''] w1 = (h, w2)"
    by (cases "subprocess_run [''hostname'', ''-I''] w1")
  have f: "fs w1 = fs w" "fs w2 = fs w"
    using choose_random_file_fs[OF c] hostname_fs[OF s] by simp_all
  from assms show ?thesis
    unfolding generate_openvpn_proxy_service_def Let_def
    by (simp add: c s split: if_splits sum.splits) (use f in auto)
qed

lemma services_loop_fs:
  "services_loop slots m locs env dir acc w = (x, w1) \<Longrightarrow> fs w1 = fs w"
proof (induction slots arbitrary: acc w)
  case Nil
  then show ?case by simp
next
  case (Cons i slots)
  show ?case
  proof (cases "py_index locs (i - 1)")
    case (Inl e)
    with Cons.prems show ?thesis by (auto split: if_splits)
  next
    case (Inr loc)
    consider (one) "m = ''1''" | (two) "m \<noteq> ''1''" "m = ''2''" | (bad) "m \<noteq> ''1''" "m \<noteq> ''2''"
      by blast
    then show ?thesis
    proof cases
      case one
      with Cons.prems Inr
      have "services_loop slots m locs env dir (acc @ [generate_gluetun_service i loc env]) w
              = (x, w1)"
        by simp
      from Cons.IH[OF this] show ?thesis .
    next
      case two
      obtain y w2 where g: "generate_openvpn_proxy_service i loc dir env w = (y, w2)"
        by (cases "generate_openvpn_proxy_service i loc dir env w")
      from generate_openvpn_proxy_service_fs[OF g] have f: "fs w2 = fs w" .
      show ?thesis
      proof (cases y)
        case (Inl e)
        with Cons.prems Inr two g f show ?thesis by auto
      next
        case s: (Inr s)
        with Cons.prems Inr two g have "services_loop slots m locs env dir (acc @ [s]) w2 = (x, w1)"
          by auto
        from Cons.IH[OF this] f show ?thesis by simp
      qed
    next
      case bad
      with Cons.prems show ?thesis by auto
    qed
  qed
qed

lemma generate_error_writes_nothing:
  assumes "isl (fst (generate_combined_docker_compose n m locs env dir w))"
  shows "fs (snd (generate_combined_docker_compose n m locs env dir w)) = fs w"
proof -
  obtain r w1 where l: "services_loop [1 ..< n + 1] m locs env dir [] w = (r, w1)"
    by (cases "services_loop [1 ..< n + 1] m locs env dir [] w")
  from services_loop_fs[OF l] have f: "fs w1 = fs w" .
  from assms l f show ?thesis
    unfolding generate_combined_docker_compose_def Let_def write_file_def
    by (auto split: sum.splits option.splits node.splits)
qed

lemma openvpn_service_fails:
  assumes same: "fs w' = fs w"
    and blocked: "\<not> path_exists w dir \<or> \<not> path_isdir w dir
       \<or> (\<forall>names. fs w dir = Some (Dir (Some names)) \<longrightarrow>
             filter (location_admits loc) names = [])"
  shows "isl (fst (generate_openvpn_proxy_service i loc dir env w'))"
proof -
  let ?p = "if loc \<noteq> ''any'' then Some loc else None"
  have ex: "path_exists w' dir = path_exists w dir" "path_isdir w' dir = path_isdir w dir"
    using same by (simp_all add: path_exists_def path_isdir_def)
  show ?thesis
  proof (cases "path_exists w dir \<and> path_isdir w dir")
    case False
    then show ?thesis
      using ex by (auto simp: generate_openvpn_proxy_service_def)
  next
    case True
    then obtain listing where d: "fs w dir = Some (Dir listing)"
      by (auto simp: path_isdir_def split: option.splits node.splits)
    have "fst (choose_random_file dir ?p w') = Inr None"
    proof (cases listing)
      case None
      with d same have "listdir w' dir = Inl (os_error PermissionError dir)"
        by (simp add: listdir_def)
      then show ?thesis by (rule choose_random_file_listing_error)
    next
      case (Some names)
      with d same have l: "listdir w' dir = Inr names"
        by (simp add: listdir_def)
      from Some d blocked True have "filter (location_admits loc) names = []"
        by simp
      then show ?thesis
        using choose_random_file_none_match[OF l, of ?p]
        by (simp only: source_filter_is_location_filter)
    qed
    then obtain w1 where "choose_random_file dir ?p w' = (Inr None, w1)"
      by (cases "choose_random_file dir ?p w'") auto
    then show ?thesis
      using True ex by (simp add: generate_openvpn_proxy_service_def)
  qed
qed

lemma services_loop_fails:
  assumes "fs w' = fs w"
    and "i \<in> set slots"
    and "i - 1 < length locs \<Longrightarrow>
         \<not> path_exists w dir \<or> \<not> path_isdir w dir
         \<or> (\<forall>names. fs w dir = Some (Dir (Some names)) \<longrightarrow>
               filter (location_admits (locs ! (i - 1))) names = [])"
  shows "isl (fst (services_loop slots ''2'' locs env dir acc w'))"
  using assms(1,2)
proof (induction slots arbitrary: acc w')
  case Nil
  then show ?case by simp
next
  case (Cons j slots)
  show ?case
  proof (cases "j - 1 < length locs")
    case False
    then show ?thesis by (simp add: py_index_def)
  next
    case True
    then have idx: "py_index locs (j - 1) = Inr (locs ! (j - 1))"
      by (simp add: py_index_def)
    obtain y w2 where g: "generate_openvpn_proxy_service j (locs ! (j - 1)) dir env w' = (y, w2)"
      by (cases "generate_openvpn_proxy_service j (locs ! (j - 1)) dir env w'")
    from generate_openvpn_proxy_service_fs[OF g] Cons.prems(1) have f: "fs w2 = fs w"
      by simp
    show ?thesis
    proof (cases y)
      case (Inl e)
      with g idx show ?thesis by simp
    next
      case (Inr s)
      have "j \<noteq> i"
      proof
        assume "j = i"
        with True assms(3) openvpn_service_fails[OF Cons.prems(1), of dir "locs ! (i - 1)" i env]
        have "isl (fst (generate_openvpn_proxy_service i (locs ! (i - 1)) dir env w'))"
          by blast
        with g \<open>j = i\<close> Inr show False by simp
      qed
      with Cons.prems(2) have "i \<in> set slots" by simp
      from Cons.IH[OF f this, of "acc @ [s]"] g idx Inr show ?thesis by simp
    qed
  qed
qed

text \<open>
  Claim C5. With method 2 and at least one connection, if the configuration directory
  does not exist, is not a directory, or has no entry admitted by the location of some
  slot, then \<open>generate_combined_docker_compose\<close> raises, and the file system after
  the call is the one before it: no manifest, whole or partial, has been written.
\<close>

theorem method2_fails_before_manifest_write:
  assumes "1 \<le> n"
    and "\<not> path_exists w dir \<or> \<not> path_isdir w dir
       \<or> (\<exists>i. 1 \<le> i \<and> i \<le> n \<and> i \<le> length locs
             \<and> (\<forall>names. fs w dir = Some (Dir (Some names)) \<longrightarrow>
                   filter (location_admits (locs ! (i - 1))) names = []))"
  shows "isl (fst (generate_combined_docker_compose n ''2'' locs env dir w))
       \<and> fs (snd (generate_combined_docker_compose n ''2'' locs env dir w)) = fs w"
proof -
  have "isl (fst (services_loop [1 ..< n + 1] ''2'' locs env dir [] w))"
  proof (cases "\<not> path_exists w dir \<or> \<not> path_isdir w dir")
    case True
    from assms(1) have "1 \<in> set [1 ..< n + 1]" by auto
    then show ?thesis
      by (rule services_loop_fails[OF refl]) (use True in blast)
  next
    case False
    with assms(2) obtain i where i: "1 \<le> i" "i \<le> n" "i \<le> length locs"
      and none: "\<forall>names. fs w dir = Some (Dir (Some names)) \<longrightarrow>
                   filter (location_admits (locs ! (i - 1))) names = []"
      by blast
    from i have "i \<in> set [1 ..< n + 1]" by auto
    then show ?thesis
      by (rule services_loop_fails[OF refl]) (use none in blast)
  qed
  moreover obtain r w1 where l: "services_loop [1 ..< n + 1] ''2'' locs env dir [] w = (r, w1)"
    by (cases "services_loop [1 ..< n + 1] ''2'' locs env dir [] w")
  ultimately obtain e where r: "r = Inl e"
    by (cases r) auto
  have "generate_combined_docker_compose n ''2'' locs env dir w = (Inl e, w1)"
    unfolding generate_combined_docker_compose_def l r by simp
  then have e: "isl (fst (generate_combined_docker_compose n ''2'' locs env dir w))"
    by simp
  from e generate_error_writes_nothing[OF e] show ?thesis by simp
qed

theorem method2_fails_before_manifest_write_witness:
  "(1::nat) \<le> 1
   \<and> \<not> path_exists world_with_env config_dir
   \<and> isl (fst (generate_combined_docker_compose 1 ''2'' [''any''] ''.env-nordvpn'' config_dir
               world_with_env))
   \<and> fs (snd (generate_combined_docker_compose 1 ''2'' [''any''] ''.env-nordvpn'' config_dir
               world_with_env)) = fs world_with_env
   \<and> filter (location_admits ([''us'', ''fr''] ! (2 - 1)))
        [''us1234.nordvpn.com.tcp.ovpn'', ''de987.nordvpn.com.tcp.ovpn'',
         ''us5678.nordvpn.com.tcp.ovpn''] = []
   \<and> isl (fst (generate_combined_docker_compose 2 ''2'' [''us'', ''fr''] ''.env-nordvpn''
               config_dir world_with_configs))
   \<and> fs (snd (generate_combined_docker_compose 2 ''2'' [''us'', ''fr''] ''.env-nordvpn''
               config_dir world_with_configs)) = fs world_with_configs"
proof -
  have one: "(1::nat) \<le> 1" "(1::nat) \<le> 2"
    by simp_all
  have absent: "\<not> path_exists world_with_env config_dir"
    by (simp add: world_with_env_def empty_world_def path_exists_def config_dir_def)
  then have a: "\<not> path_exists world_with_env config_dir
       \<or> \<not> path_isdir world_with_env config_dir
       \<or> (\<exists>i. 1 \<le> i \<and> i \<le> 1 \<and> i \<le> length [''any'']
             \<and> (\<forall>names. fs world_with_env config_dir = Some (Dir (Some names)) \<longrightarrow>
                   filter (location_admits ([''any''] ! (i - 1))) names = []))"
    by simp
  have none: "filter (location_admits ([''us'', ''fr''] ! (2 - 1)))
        [''us1234.nordvpn.com.tcp.ovpn'', ''de987.nordvpn.com.tcp.ovpn'',
         ''us5678.nordvpn.com.tcp.ovpn''] = []"
    by (simp add: location_admits_def startswith_def)
  have "1 \<le> (2::nat) \<and> (2::nat) \<le> 2 \<and> 2 \<le> length [''us'', ''fr'']
       \<and> (\<forall>names. fs world_with_configs config_dir = Some (Dir (Some names)) \<longrightarrow>
             filter (location_admits ([''us'', ''fr''] ! (2 - 1))) names = [])"
    using none by (simp add: world_with_configs_def)
  then have b: "\<not> path_exists world_with_configs config_dir
       \<or> \<not> path_isdir world_with_configs config_dir
       \<or> (\<exists>i. 1 \<le> i \<and> i \<le> 2 \<and> i \<le> length [''us'', ''fr'']
             \<and> (\<forall>names. fs world_with_configs config_dir = Some (Dir (Some names)) \<longrightarrow>
                   filter (location_admits ([''us'', ''fr''] ! (i - 1))) names = []))"
    by blast
  from method2_fails_before_manifest_write[OF one(1) a, of "''.env-nordvpn''"]
       method2_fails_before_manifest_write[OF one(2) b, of "''.env-nordvpn''"]
       one(1) absent none
  show ?thesis by blast
qed

section \<open>The cleanup step\<close>

lemma subprocess_run_errors:
  "subprocess_run cmd w = (Inl e, w1) \<Longrightarrow> fst e = FileNotFoundError \<or> fst e = CalledProcessError"
  by (auto simp: subprocess_run_def os_error_def called_process_error_def
      split: option.splits prod.splits if_splits)

lemma subprocess_run_procs: "subprocess_run cmd w = (r, w1) \<Longrightarrow> procs w1 = procs w"
  by (auto simp: subprocess_run_def proc_effect_def
      split: option.splits prod.splits if_splits list.splits)

lemma rm_fs:
  "subprocess_run [''rm'', ''-rf'', p] w = (r, w1) \<Longrightarrow>
   fs w1 = (if \<exists>output. procs w [''rm'', ''-rf'', p] = Some (0, output)
            then (fs w)(p := None) else fs w)"
  by (auto simp: subprocess_run_def proc_effect_def split: option.splits prod.splits if_splits)

lemma profile_loop_result:
  "fst (profile_loop slots w) = Inr ()
   \<and> procs (snd (profile_loop slots w)) = procs w
   \<and> fs (snd (profile_loop slots w)) =
       (\<lambda>p. if \<exists>i \<in> set slots. p = ''chrome_profile_'' @ str_nat i
                  \<and> (\<exists>output. procs w [''rm'', ''-rf'', p] = Some (0, output))
             then None else fs w p)"
proof (induction slots arbitrary: w)
  case Nil
  then show ?case by simp
next
  case (Cons i slots)
  let ?d = "''chrome_profile_'' @ str_nat i"
  obtain r w1 where s: "subprocess_run [''rm'', ''-rf'', ?d] w = (r, w1)"
    by (cases "subprocess_run [''rm'', ''-rf'', ?d] w")
  note p = subprocess_run_procs[OF s] and f = rm_fs[OF s]
  show ?case
  proof (cases r)
    case (Inr printed)
    with s p f Cons.IH[of "py_print (''Deleted directory: '' @ ?d) w1"] show ?thesis
      by (auto simp: Let_def fun_eq_iff)
  next
    case (Inl e)
    from subprocess_run_errors[OF s[unfolded Inl]]
    consider "fst e = FileNotFoundError" | "fst e \<noteq> FileNotFoundError" "fst e = CalledProcessError"
      by blast
    then show ?thesis
    proof cases
      case 1
      with Inl s p f Cons.IH[of w1] show ?thesis
        by (auto simp: Let_def fun_eq_iff)
    next
      case 2
      with Inl s p f
        Cons.IH[of "py_print (''Error deleting directory '' @ ?d @ '': '' @ snd e) w1"]
      show ?thesis
        by (auto simp: Let_def fun_eq_iff)
    qed
  qed
qed

lemma remove_if_present_ok:
  "\<not> path_isdir w p \<Longrightarrow>
     fst (remove_if_present p w) = Inr ()
   \<and> fs (snd (remove_if_present p w)) = (fs w)(p := None)
   \<and> procs (snd (remove_if_present p w)) = procs w"
  by (auto simp: remove_if_present_def os_remove_def os_error_def path_isdir_def fun_eq_iff
      split: option.splits node.splits)

lemma remove_if_present_dir:
  "path_isdir w p \<Longrightarrow> remove_if_present p w = (Inl (os_error IsADirectoryError p), w)"
  by (auto simp: remove_if_present_def os_remove_def os_error_def path_isdir_def
      split: option.splits node.splits)

lemma cleanup_step_ok:
  assumes "\<not> path_isdir w cf" and "\<not> path_isdir w ef"
  shows "fst (cleanup_step cf ef n w) = Inr ()
       \<and> procs (snd (cleanup_step cf ef n w)) = procs w
       \<and> fs (snd (cleanup_step cf ef n w)) =
           (\<lambda>p. if \<exists>i \<in> set [1 ..< n + 1]. p = ''chrome_profile_'' @ str_nat i
                      \<and> (\<exists>output. procs w [''rm'', ''-rf'', p] = Some (0, output))
                 then None else ((fs w)(cf := None, ef := None)) p)"
proof -
  obtain w1 where 1: "remove_if_present cf w = (Inr (), w1)"
    and f1: "fs w1 = (fs w)(cf := None)" and p1: "procs w1 = procs w"
    using remove_if_present_ok[OF assms(1)] by (cases "remove_if_present cf w") auto
  have "\<not> path_isdir w1 ef"
    using assms(2) f1 by (auto simp: path_isdir_def)
  then obtain w2 where 2: "remove_if_present ef w1 = (Inr (), w2)"
    and f2: "fs w2 = (fs w1)(ef := None)" and p2: "procs w2 = procs w1"
    using remove_if_present_ok[of w1 ef] by (cases "remove_if_present ef w1") auto
  obtain w3 where 3: "profile_loop [1 ..< n + 1] w2 = (Inr (), w3)"
    and p3: "procs w3 = procs w2"
    and f3: "fs w3 = (\<lambda>p. if \<exists>i \<in> set [1 ..< n + 1]. p = ''chrome_profile_'' @ str_nat i
                  \<and> (\<exists>output. procs w2 [''rm'', ''-rf'', p] = Some (0, output))
             then None else fs w2 p)"
    using profile_loop_result[of "[1 ..< n + 1]" w2]
    by (cases "profile_loop [1 ..< n + 1] w2") auto
  have e: "cleanup_step cf ef n w = (Inr (), py_print ''Cleanup complete.'' w3)"
    by (simp only: cleanup_step_def 1 2 3 prod.case sum.case)
  show ?thesis
    unfolding e
    by (simp only: fst_conv snd_conv fs_py_print procs_py_print f3 f2 f1 p3 p2 p1 simp_thms)
qed

lemma cleanup_step_needs_files:
  assumes "fst (cleanup_step cf ef n w) = Inr ()"
  shows "\<not> path_isdir w cf \<and> \<not> path_isdir w ef"
proof -
  have a: "\<not> path_isdir w cf"
  proof
    assume "path_isdir w cf"
    from remove_if_present_dir[OF this] assms show False
      by (simp add: cleanup_step_def)
  qed
  obtain w1 where 1: "remove_if_present cf w = (Inr (), w1)"
    and f1: "fs w1 = (fs w)(cf := None)"
    using remove_if_present_ok[OF a] by (cases "remove_if_present cf w") auto
  have "\<not> path_isdir w ef"
  proof
    assume d: "path_isdir w ef"
    with a have "ef \<noteq> cf" by auto
    with d f1 have "path_isdir w1 ef" by (simp add: path_isdir_def)
    from remove_if_present_dir[OF this] assms 1 show False
      by (simp add: cleanup_step_def)
  qed
  with a show ?thesis by simp
qed

text \<open>
  Claim C7. The cleanup step raises no error when the manifest path and the
  credentials path are files or absent, whatever the state of the profile directories
  and whatever \<open>rm\<close> does; in particular when both are absent. After a cleanup that
  raised no error, a second one raises none either and leaves the file system as the
  first one left it.
\<close>

theorem cleanup_idempotent:
  "(\<not> path_isdir w cf \<and> \<not> path_isdir w ef \<longrightarrow> fst (cleanup_step cf ef n w) = Inr ())
   \<and> (fs w cf = None \<and> fs w ef = None \<longrightarrow> fst (cleanup_step cf ef n w) = Inr ())
   \<and> (fst (cleanup_step cf ef n w) = Inr () \<longrightarrow>
         fst (cleanup_step cf ef n (snd (cleanup_step cf ef n w))) = Inr ()
       \<and> fs (snd (cleanup_step cf ef n (snd (cleanup_step cf ef n w))))
           = fs (snd (cleanup_step cf ef n w)))"
proof (intro conjI impI)
  assume "\<not> path_isdir w cf \<and> \<not> path_isdir w ef"
  then show "fst (cleanup_step cf ef n w) = Inr ()"
    using cleanup_step_ok[of w cf ef n] by simp
next
  assume "fs w cf = None \<and> fs w ef = None"
  then have "\<not> path_isdir w cf" "\<not> path_isdir w ef"
    by (simp_all add: path_isdir_def)
  then show "fst (cleanup_step cf ef n w) = Inr ()"
    using cleanup_step_ok[of w cf ef n] by simp
next
  assume ok: "fst (cleanup_step cf ef n w) = Inr ()"
  let ?w = "snd (cleanup_step cf ef n w)"
  from cleanup_step_needs_files[OF ok] have nd: "\<not> path_isdir w cf" "\<not> path_isdir w ef"
    by simp_all
  define R where "R = (\<lambda>p. \<exists>i \<in> set [1 ..< n + 1]. p = ''chrome_profile_'' @ str_nat i
                      \<and> (\<exists>output. procs w [''rm'', ''-rf'', p] = Some (0, output)))"
  from cleanup_step_ok[OF nd, of n]
  have first: "procs ?w = procs w"
      "fs ?w = (\<lambda>p. if R p then None else ((fs w)(cf := None, ef := None)) p)"
    by (simp_all add: R_def)
  from first(2) have gone: "fs ?w cf = None" "fs ?w ef = None"
    by simp_all
  then have nd': "\<not> path_isdir ?w cf" "\<not> path_isdir ?w ef"
    by (simp_all add: path_isdir_def)
  from cleanup_step_ok[OF nd', of n]
  have second: "fst (cleanup_step cf ef n ?w) = Inr ()"
      "fs (snd (cleanup_step cf ef n ?w))
         = (\<lambda>p. if R p then None else ((fs ?w)(cf := None, ef := None)) p)"
    by (simp_all add: R_def first(1))
  from second(1) show "fst (cleanup_step cf ef n ?w) = Inr ()" .
  have "(if R p then None else ((fs ?w)(cf := None, ef := None)) p) = fs ?w p" for p
  proof (cases "R p")
    case True
    then show ?thesis by (simp add: first(2))
  next
    case False
    then show ?thesis using gone by (cases "p = cf"; cases "p = ef") simp_all
  qed
  with second(2) show "fs (snd (cleanup_step cf ef n ?w)) = fs ?w"
    by (simp add: fun_eq_iff)
qed

theorem cleanup_idempotent_witness:
  "\<not> path_isdir world_after_session compose_file
   \<and> \<not> path_isdir world_after_session ''.env-nordvpn''
   \<and> fst (cleanup_step compose_file ''.env-nordvpn'' 2 world_after_session) = Inr ()
   \<and> fst (cleanup_step compose_file ''.env-nordvpn'' 2
            (snd (cleanup_step compose_file ''.env-nordvpn'' 2 world_after_session))) = Inr ()
   \<and> fs (snd (cleanup_step compose_file ''.env-nordvpn'' 2
            (snd (cleanup_step compose_file ''.env-nordvpn'' 2 world_after_session))))
       = fs (snd (cleanup_step compose_file ''.env-nordvpn'' 2 world_after_session))
   \<and> fs empty_world compose_file = None
   \<and> fs empty_world ''.env-nordvpn'' = None
   \<and> fst (cleanup_step compose_file ''.env-nordvpn'' 2 empty_world) = Inr ()"
proof -
  have a: "\<not> path_isdir world_after_session compose_file
           \<and> \<not> path_isdir world_after_session ''.env-nordvpn''"
    by (simp add: world_after_session_def world_with_env_def path_isdir_def compose_file_def)
  have b: "fs empty_world compose_file = None \<and> fs empty_world ''.env-nordvpn'' = None"
    by (simp add: empty_world_def)
  from cleanup_idempotent[of world_after_session compose_file "''.env-nordvpn''" 2]
       cleanup_idempotent[of empty_world compose_file "''.env-nordvpn''" 2] a b
  show ?thesis by blast
qed

section \<open>The session and its teardown\<close>

lemma upt_1_2: "[1 ..< 1 + 1] = [1::nat]"
  by (simp add: upt_rec)

lemma ran_py_print [simp]: "ran (py_print s w) = ran w"
  by (simp add: py_print_def)

lemma ran_py_input: "py_input prompt w = (r, w1) \<Longrightarrow> ran w1 = ran w"
  by (auto simp: py_input_def split: list.splits)

lemma ran_subprocess_run: "subprocess_run cmd w = (r, w1) \<Longrightarrow> ran w1 = ran w @ [cmd]"
  by (auto simp: subprocess_run_def proc_effect_def
      split: option.splits prod.splits list.splits if_splits)

lemma ran_remove_if_present: "remove_if_present p w = (r, w1) \<Longrightarrow> ran w1 = ran w"
  by (auto simp: remove_if_present_def os_remove_def
      split: option.splits node.splits if_splits)

lemma ran_profile_loop: "c \<in> set (ran w) \<Longrightarrow> c \<in> set (ran (snd (profile_loop slots w)))"
proof (induction slots arbitrary: w)
  case Nil
  then show ?case by simp
next
  case (Cons i slots)
  let ?d = "''chrome_profile_'' @ str_nat i"
  obtain r w1 where s: "subprocess_run [''rm'', ''-rf'', ?d] w = (r, w1)"
    by (cases "subprocess_run [''rm'', ''-rf'', ?d] w")
  from ran_subprocess_run[OF s] Cons.prems have c: "c \<in> set (ran w1)"
    by simp
  then have "c \<in> set (ran (py_print x w1))" for x
    by simp
  with c s show ?case
    by (auto simp: Let_def intro!: Cons.IH split: sum.splits)
qed

lemma ran_cleanup_step:
  assumes "c \<in> set (ran w)"
  shows "c \<in> set (ran (snd (cleanup_step cf ef n w)))"
proof -
  define slots where "slots = [1 ..< n + 1]"
  obtain r1 w1 where 1: "remove_if_present cf w = (r1, w1)"
    by (cases "remove_if_present cf w")
  obtain r2 w2 where 2: "remove_if_present ef w1 = (r2, w2)"
    by (cases "remove_if_present ef w1")
  obtain r3 w3 where 3: "profile_loop slots w2 = (r3, w3)"
    by (cases "profile_loop slots w2")
  from assms ran_remove_if_present[OF 1] ran_remove_if_present[OF 2]
  have c: "c \<in> set (ran w1)" "c \<in> set (ran w2)"
    by simp_all
  from ran_profile_loop[OF c(2), of slots] 3 have c3: "c \<in> set (ran w3)"
    by simp
  have "snd (cleanup_step cf ef n w) = w1 \<or> snd (cleanup_step cf ef n w) = w2
      \<or> snd (cleanup_step cf ef n w) = w3
      \<or> snd (cleanup_step cf ef n w) = py_print ''Cleanup complete.'' w3"
    unfolding cleanup_step_def slots_def[symmetric] 1
    by (cases r1; cases r2; cases r3) (simp_all add: 2 3)
  with c c3 show ?thesis
    by auto
qed

lemma stop_vpn_connections_runs:
  "fst (stop_vpn_connections cf w) = Inr ()
   \<and> ran (snd (stop_vpn_connections cf w)) = ran w @ [stop_command cf]"
proof -
  obtain r w1 where s: "subprocess_run (stop_command cf) w = (r, w1)"
    by (cases "subprocess_run (stop_command cf) w")
  note a = ran_subprocess_run[OF s]
  show ?thesis
  proof (cases r)
    case (Inr printed)
    with s a show ?thesis by (simp add: stop_vpn_connections_def)
  next
    case (Inl e)
    with subprocess_run_errors[of "stop_command cf" w e w1] s a show ?thesis
      by (auto simp: stop_vpn_connections_def)
  qed
qed

lemma session_finally_runs_stop:
  "stop_command cf \<in> set (ran (snd (session_finally (Some cf) ef n w)))"
proof -
  define w1 where "w1 = py_print ([nl] @ ''Stopping all VPN connections...'') w"
  obtain w2 where s: "stop_vpn_connections cf w1 = (Inr (), w2)"
    and r: "stop_command cf \<in> set (ran w2)"
    using stop_vpn_connections_runs[of cf w1] by (cases "stop_vpn_connections cf w1") auto
  define w3 where "w3 = py_print ''All VPN connections stopped.'' w2"
  define prompt where "prompt = ''Do you want to delete the generated configuration and environment files and Chrome profile directories? (yes/no): ''"
  obtain a w4 where i: "py_input prompt w3 = (a, w4)"
    by (cases "py_input prompt w3")
  from ran_py_input[OF i] r have r4: "stop_command cf \<in> set (ran w4)"
    by (simp add: w3_def)
  have "snd (session_finally (Some cf) ef n w) = w4
      \<or> snd (session_finally (Some cf) ef n w) = snd (cleanup_step cf ef n w4)"
    unfolding session_finally_def Let_def prompt_def[symmetric] w1_def[symmetric] option.case
      s prod.case sum.case w3_def[symmetric] i
    by (cases a) simp_all
  with ran_cleanup_step[OF r4, of cf ef n] r4 show ?thesis
    by auto
qed

lemma session_body_binds_config_file:
  assumes "generate_combined_docker_compose n m locs env ''/etc/openvpn/ovpn_tcp'' w
             = (Inr (cf, ef), w1)"
  shows "fst (snd (session_body n m locs env url w)) = Some cf"
  by (simp add: session_body_def assms Let_def split: sum.splits prod.splits)

lemma stop_runs_when_manifest_generated:
  assumes "generate_combined_docker_compose n m locs env ''/etc/openvpn/ovpn_tcp'' w
             = (Inr (cf, ef), w1)"
  shows "stop_command cf \<in> set (ran (snd (main_session n m locs env url w)))"
proof -
  obtain r w6 where b: "session_body n m locs env url w = (r, Some cf, w6)"
    using session_body_binds_config_file[OF assms, of url]
    by (cases "session_body n m locs env url w") auto
  obtain q w7 where f: "session_finally (Some cf) env n w6 = (q, w7)"
    by (cases "session_finally (Some cf) env n w6")
  have "snd (main_session n m locs env url w) = w7"
    unfolding main_session_def b prod.case f by (cases q) simp_all
  with session_finally_runs_stop[of cf env n w6] f show ?thesis
    by simp
qed

text \<open>
  When the generator raises, whatever the cause, the session ends with the
  \<open>NameError\<close> of the \<^verbatim>\<open>finally\<close> block, which has only printed its first line.
\<close>

lemma generation_failure_skips_stop:
  assumes "generate_combined_docker_compose n m locs env ''/etc/openvpn/ovpn_tcp'' w = (Inl e, w1)"
  shows "main_session n m locs env url w
           = (Inl (NameError, ''name '' @ [sq] @ ''config_file'' @ [sq] @ '' is not defined''),
              py_print ([nl] @ ''Stopping all VPN connections...'') w1)"
  unfolding main_session_def session_body_def assms
  by (simp add: session_finally_def)

text \<open>
  Claim C2. The claim does not hold on the path where the manifest generator itself
  raises. There the assignment to \<open>config_file\<close> never happens, and the
  \<^verbatim>\<open>finally\<close> block fails with a \<open>NameError\<close> while it evaluates the argument of
  \<open>stop_vpn_connections\<close>: no command is run at all. The run below uses method 2 on
  a machine without the configuration directory. (On every path where the generator
  returns, the stop command is run: \<open>stop_runs_when_manifest_generated\<close>; whenever it
  raises, the session ends as here: \<open>generation_failure_skips_stop\<close>.)
\<close>

theorem unbound_config_file_skips_stop:
  "fst (main_session 1 ''2'' [''any''] ''.env-nordvpn'' None world_with_env)
     = Inl (NameError, ''name '' @ [sq] @ ''config_file'' @ [sq] @ '' is not defined'')
   \<and> ran (snd (main_session 1 ''2'' [''any''] ''.env-nordvpn'' None world_with_env)) = []
   \<and> stop_command compose_file
       \<notin> set (ran (snd (main_session 1 ''2'' [''any''] ''.env-nordvpn'' None world_with_env)))"
proof -
  have g: "generate_combined_docker_compose 1 ''2'' [''any''] ''.env-nordvpn''
             ''/etc/openvpn/ovpn_tcp'' world_with_env
           = (Inl (FileNotFoundError,
                   ''OpenVPN configuration directory '' @ [sq] @ ''/etc/openvpn/ovpn_tcp'' @ [sq]
                     @ '' does not exist.''), world_with_env)"
    by (simp add: generate_combined_docker_compose_def upt_1_2 py_index_def
        generate_openvpn_proxy_service_def path_exists_def world_with_env_def empty_world_def)
  have m: "main_session 1 ''2'' [''any''] ''.env-nordvpn'' None world_with_env
           = (Inl (NameError, ''name '' @ [sq] @ ''config_file'' @ [sq] @ '' is not defined''),
              py_print ([nl] @ ''Stopping all VPN connections...'') world_with_env)"
    unfolding main_session_def session_body_def g
    by (simp add: session_finally_def)
  show ?thesis
    unfolding m by (simp add: py_print_def world_with_env_def empty_world_def)
qed

section \<open>The generated manifest\<close>

subsection \<open>Decimal numbers\<close>

lemma str_nat_lt10: "n < 10 \<Longrightarrow> str_nat n = [''0123456789'' ! n]"
  by (simp add: str_nat.simps)

lemma str_nat_ge10:
  "\<not> n < 10 \<Longrightarrow> str_nat n = str_nat (n div 10) @ [''0123456789'' ! (n mod 10)]"
  by (subst str_nat.simps) simp

lemma digit_cases: "n < 10 \<Longrightarrow> n \<in> {0, 1, 2, 3, 4, 5, 6, 7, 8, 9::nat}"
  by (simp, arith)

lemma digit_char:
  assumes "n < 10"
  shows "is_digit (''0123456789'' ! n)" and "of_char (''0123456789'' ! n) - 48 = n"
proof -
  have "\<forall>k \<in> {0, 1, 2, 3, 4, 5, 6, 7, 8, 9::nat}.
          is_digit (''0123456789'' ! k) \<and> of_char (''0123456789'' ! k) - 48 = k"
    by (simp add: is_digit_def)
  from this digit_cases[OF assms]
  have "is_digit (''0123456789'' ! n) \<and> of_char (''0123456789'' ! n) - 48 = n"
    by (rule bspec)
  then show "is_digit (''0123456789'' ! n)" and "of_char (''0123456789'' ! n) - 48 = n"
    by simp_all
qed

lemma str_nat_digits: "c \<in> set (str_nat n) \<Longrightarrow> is_digit c"
proof (induction n arbitrary: c rule: str_nat.induct)
  case (1 n)
  show ?case
  proof (cases "n < 10")
    case True
    with "1.prems" digit_char(1)[of n] show ?thesis
      by (simp add: str_nat_lt10)
  next
    case False
    have "n mod 10 < 10" by simp
    from digit_char(1)[OF this] "1.prems" "1.IH"[OF False] False show ?thesis
      by (auto simp: str_nat_ge10)
  qed
qed

lemma str_nat_not_empty: "str_nat n \<noteq> []"
  by (cases "n < 10") (simp_all add: str_nat_lt10 str_nat_ge10)

lemma str_nat_no_nl: "nl \<notin> set (str_nat n)"
  using str_nat_digits[of nl n] by (auto simp: is_digit_def nl_def)

lemma nat_of_digits_snoc: "nat_of_digits (s @ [c]) = 10 * nat_of_digits s + (of_char c - 48)"
  by (simp add: nat_of_digits_def)

lemma nat_of_digits_str_nat: "nat_of_digits (str_nat n) = n"
proof (induction n rule: str_nat.induct)
  case (1 n)
  show ?case
  proof (cases "n < 10")
    case True
    with digit_char(2)[of n] show ?thesis
      by (simp add: str_nat_lt10 nat_of_digits_def)
  next
    case False
    have "n mod 10 < 10" by simp
    from digit_char(2)[OF this] "1.IH"[OF False] False show ?thesis
      by (simp add: str_nat_ge10 nat_of_digits_snoc)
  qed
qed

lemma takeWhile_digits:
  "\<not> is_digit c \<Longrightarrow> takeWhile is_digit (str_nat n @ c # rest) = str_nat n"
  by (simp add: takeWhile_append2 str_nat_digits takeWhile_tail)

lemma dropWhile_digits:
  "\<not> is_digit c \<Longrightarrow> dropWhile is_digit (str_nat n @ c # rest) = c # rest"
  by (simp add: dropWhile_append2 str_nat_digits)

lemma port_mapping_line:
  "port_mapping (''      - '' @ [dq] @ str_nat p @ '':'' @ str_nat q @ [dq] @ comment) = (p, q)"
proof -
  have c: "\<not> is_digit CHR '':''" "\<not> is_digit dq"
    by (simp_all add: is_digit_def dq_def)
  show ?thesis
    by (simp add: port_mapping_def Let_def takeWhile_digits[OF c(1)] dropWhile_digits[OF c(1)]
        takeWhile_digits[OF c(2)] nat_of_digits_str_nat)
qed

subsection \<open>Lines of a manifest\<close>

lemma split_lines_nl: "split_lines (nl # t) = [] # split_lines t"
  by simp

lemma nonblank_triple_quoted:
  assumes "list_all (\<lambda>l. l \<noteq> [] \<and> nl \<notin> set l) ls"
  shows "filter (\<lambda>l. l \<noteq> []) (split_lines (triple_quoted ls @ rest))
           = ls @ filter (\<lambda>l. l \<noteq> []) (split_lines rest)"
proof -
  from assms have a: "\<And>l. l \<in> set ls \<Longrightarrow> nl \<notin> set l" and b: "filter (\<lambda>l. l \<noteq> []) ls = ls"
    by (auto simp: list_all_iff)
  from split_lines_triple_quoted[of ls rest, OF a] b show ?thesis
    by simp
qed

lemma nonblank_join:
  assumes "list_all (\<lambda>ls. list_all (\<lambda>l. l \<noteq> [] \<and> nl \<notin> set l) ls) lss"
  shows "filter (\<lambda>l. l \<noteq> []) (split_lines (join_nl (map triple_quoted lss))) = concat lss"
  using assms
proof (induction lss rule: induct_list012)
  case 1
  then show ?case by simp
next
  case (2 ls)
  then show ?case
    using nonblank_triple_quoted[of ls "[]"] by simp
next
  case (3 ls ls' lss)
  from "3.prems" have ok: "list_all (\<lambda>l. l \<noteq> [] \<and> nl \<notin> set l) ls"
    and rest: "list_all (\<lambda>ls. list_all (\<lambda>l. l \<noteq> [] \<and> nl \<notin> set l) ls) (ls' # lss)"
    by simp_all
  have "join_nl (map triple_quoted (ls # ls' # lss))
          = triple_quoted ls @ nl # join_nl (map triple_quoted (ls' # lss))"
    by simp
  then show ?case
    using nonblank_triple_quoted[OF ok, of "nl # join_nl (map triple_quoted (ls' # lss))"]
      "3.IH"(2)[OF rest]
    by (simp del: join_nl.simps list.map)
qed

lemma service_blocks_skip:
  "list_all (\<lambda>l. \<not> is_service_header l) body \<Longrightarrow>
   service_blocks (body @ ls) = service_blocks ls"
  by (induction body) simp_all

lemma takeWhile_body:
  "list_all (\<lambda>l. \<not> is_service_header l) body \<Longrightarrow>
   ls = [] \<or> is_service_header (hd ls) \<Longrightarrow>
   takeWhile (\<lambda>x. \<not> is_service_header x) (body @ ls) = body"
  by (induction body) (auto simp: neq_Nil_conv takeWhile_eq_Nil_iff)

lemma concat_template_blocks_head:
  "list_all template_block lss \<Longrightarrow> concat lss = [] \<or> is_service_header (hd (concat lss))"
  by (cases lss) (auto simp: template_block_def neq_Nil_conv)

lemma service_blocks_concat:
  "list_all template_block lss \<Longrightarrow> service_blocks (concat lss) = lss"
proof (induction lss)
  case Nil
  then show ?case by simp
next
  case (Cons ls lss)
  from Cons.prems have t: "template_block ls" and rest: "list_all template_block lss"
    by simp_all
  from t obtain h body where ls: "ls = h # body"
    and h: "is_service_header h" and b: "list_all (\<lambda>l. \<not> is_service_header l) body"
    by (cases ls) (auto simp: template_block_def)
  from takeWhile_body[OF b concat_template_blocks_head[OF rest]]
    service_blocks_skip[OF b, of "concat lss"] Cons.IH[OF rest] h
  show ?case
    by (simp add: ls)
qed

lemma manifest_blocks_compose_content:
  assumes "list_all template_block lss"
  shows "manifest_blocks (''services:'' @ [nl] @ join_nl (map triple_quoted lss)) = lss"
proof -
  from assms have "list_all (\<lambda>ls. list_all (\<lambda>l. l \<noteq> [] \<and> nl \<notin> set l) ls) lss"
    by (auto simp: list_all_iff template_block_def)
  from nonblank_join[OF this] have n:
    "filter (\<lambda>l. l \<noteq> []) (split_lines (join_nl (map triple_quoted lss))) = concat lss" .
  have "nl \<notin> set ''services:''"
    by (simp add: nl_def)
  from split_lines_line[OF this, of "join_nl (map triple_quoted lss)"]
  have "split_lines (''services:'' @ [nl] @ join_nl (map triple_quoted lss))
          = ''services:'' # split_lines (join_nl (map triple_quoted lss))"
    by simp
  then show ?thesis
    unfolding manifest_blocks_def using n service_blocks_concat[OF assms] by simp
qed

subsection \<open>The templates\<close>

lemma gluetun_template_block:
  assumes "nl \<notin> set loc" and "nl \<notin> set env"
  shows "template_block (gluetun_template i loc env p q)"
  using assms str_nat_no_nl[of i] str_nat_no_nl[of p] str_nat_no_nl[of q]
  by (simp add: template_block_def gluetun_template_def is_service_header_def nl_def dq_def)

lemma gluetun_template_ports:
  "block_ports (gluetun_template i loc env p q) = [(p, p), (q, q)]"
  using port_mapping_line[of p p "'' # HTTP Proxy''"] port_mapping_line[of q q "'' # SOCKS5 Proxy''"]
  by (simp add: block_ports_def gluetun_template_def startswith_def)

lemma openvpn_proxy_template_block:
  assumes "nl \<notin> set dir" and "nl \<notin> set env" and "nl \<notin> set cf" and "nl \<notin> set ip"
  shows "template_block (openvpn_proxy_template i dir env cf ip p)"
  using assms str_nat_no_nl[of i] str_nat_no_nl[of p]
  by (simp add: template_block_def openvpn_proxy_template_def is_service_header_def nl_def dq_def)

lemma openvpn_proxy_template_ports:
  "block_ports (openvpn_proxy_template i dir env cf ip p) = [(p, p)]"
  using port_mapping_line[of p p "'' # HTTP Proxy''"]
  by (simp add: block_ports_def openvpn_proxy_template_def startswith_def)

subsection \<open>The services the loop collects\<close>

lemma services_loop_gluetun:
  "(\<And>i. i \<in> set slots \<Longrightarrow> 1 \<le> i \<and> i \<le> length locs) \<Longrightarrow>
   services_loop slots ''1'' locs env dir acc w
     = (Inr (acc @ map (\<lambda>i. generate_gluetun_service i (locs ! (i - 1)) env) slots), w)"
proof (induction slots arbitrary: acc)
  case Nil
  then show ?case by simp
next
  case (Cons i slots)
  from Cons.prems[of i] have "py_index locs (i - 1) = Inr (locs ! (i - 1))"
    by (auto simp: py_index_def)
  with Cons.IH[of "acc @ [generate_gluetun_service i (locs ! (i - 1)) env]"] Cons.prems
  show ?case by simp
qed

lemma py_split_no_space: "t \<in> set (py_split s) \<Longrightarrow> c \<in> set t \<Longrightarrow> \<not> is_space c"
proof (induction s arbitrary: t rule: py_split.induct)
  case 1
  then show ?case by simp
next
  case (2 d ds)
  show ?case
  proof (cases "is_space d")
    case True
    with 2 show ?thesis by simp
  next
    case False
    show ?thesis
    proof (cases ds)
      case Nil
      with False "2.prems" show ?thesis by auto
    next
      case (Cons e es)
      show ?thesis
      proof (cases "is_space e")
        case True
        with False Cons "2.prems" "2.IH"(2)[OF False Cons True] show ?thesis
          by auto
      next
        case e: False
        show ?thesis
        proof (cases "py_split ds")
          case Nil
          with False Cons e "2.prems" show ?thesis by auto
        next
          case split: (Cons u us)
          from "2.IH"(3)[OF False Cons e] split
          have ih: "\<And>t. t \<in> set (u # us) \<Longrightarrow> c \<in> set t \<Longrightarrow> \<not> is_space c"
            by simp
          from False Cons e split "2.prems" have "t = d # u \<or> t \<in> set us"
            by auto
          with ih[of u] ih[of t] False "2.prems"(2) show ?thesis
            by auto
        qed
      qed
    qed
  qed
qed

lemma py_index_member: "py_index xs k = Inr x \<Longrightarrow> x \<in> set xs"
  by (auto simp: py_index_def split: if_splits)

lemma openvpn_service_shape:
  assumes g: "generate_openvpn_proxy_service i loc dir env w = (Inr s, w')"
    and names: "\<forall>names f. fs w dir = Some (Dir (Some names)) \<longrightarrow> f \<in> set names \<longrightarrow> nl \<notin> set f"
  shows "\<exists>cf ip. s = triple_quoted (openvpn_proxy_template i dir env cf ip (8888 + i))
           \<and> nl \<notin> set cf \<and> nl \<notin> set ip"
proof -
  let ?p = "if loc \<noteq> ''any'' then Some loc else None"
  obtain r w1 where c: "choose_random_file dir ?p w = (r, w1)"
    by (cases "choose_random_file dir ?p w")
  obtain h w2 where sp: "subprocess_run [''hostname'', ''-I''] w1 = (h, w2)"
    by (cases "subprocess_run [''hostname'', ''-I''] w1")
  from g obtain cf outp ip where r: "r = Inr (Some cf)" and h: "h = Inr outp"
    and ip: "py_index (py_split outp) 0 = Inr ip"
    and s: "s = triple_quoted (openvpn_proxy_template i dir env cf ip (8888 + i))"
    unfolding generate_openvpn_proxy_service_def Let_def
    by (auto simp: c sp split: if_splits sum.splits)
  from choose_random_file_total[of dir ?p w] c r
  obtain names where "listdir w dir = Inr names" "cf \<in> set names"
    by auto
  with names have "nl \<notin> set cf"
    by (simp add: listdir_cases)
  moreover have "nl \<notin> set ip"
    using py_split_no_space[OF py_index_member[OF ip], of nl]
    by (auto simp: is_space_def nl_def)
  ultimately show ?thesis
    using s by blast
qed

lemma services_loop_openvpn:
  assumes "services_loop slots ''2'' locs env dir acc w = (Inr services, w')"
    and "\<forall>names f. fs w dir = Some (Dir (Some names)) \<longrightarrow> f \<in> set names \<longrightarrow> nl \<notin> set f"
  shows "\<exists>lss. services = acc @ map triple_quoted lss
           \<and> list_all2 (\<lambda>i ls. \<exists>cf ip. ls = openvpn_proxy_template i dir env cf ip (8888 + i)
                                   \<and> nl \<notin> set cf \<and> nl \<notin> set ip) slots lss"
  using assms
proof (induction slots arbitrary: acc w)
  case Nil
  then show ?case by simp
next
  case (Cons i slots)
  obtain loc where idx: "py_index locs (i - 1) = Inr loc"
    using Cons.prems(1) by (cases "py_index locs (i - 1)") auto
  obtain y w1 where g: "generate_openvpn_proxy_service i loc dir env w = (y, w1)"
    by (cases "generate_openvpn_proxy_service i loc dir env w")
  from Cons.prems(1) idx g obtain s where y: "y = Inr s"
    and rest: "services_loop slots ''2'' locs env dir (acc @ [s]) w1 = (Inr services, w')"
    by (cases y) auto
  from generate_openvpn_proxy_service_fs[OF g] have f: "fs w1 = fs w" .
  from openvpn_service_shape[OF g[unfolded y] Cons.prems(2)]
  obtain cf ip where s: "s = triple_quoted (openvpn_proxy_template i dir env cf ip (8888 + i))"
    and ok: "nl \<notin> set cf" "nl \<notin> set ip"
    by blast
  from Cons.prems(2) f
  have "\<forall>names f. fs w1 dir = Some (Dir (Some names)) \<longrightarrow> f \<in> set names \<longrightarrow> nl \<notin> set f"
    by simp
  from Cons.IH[OF rest this]
  obtain lss where a: "services = (acc @ [s]) @ map triple_quoted lss"
    and b: "list_all2 (\<lambda>i ls. \<exists>cf ip. ls = openvpn_proxy_template i dir env cf ip (8888 + i)
                                   \<and> nl \<notin> set cf \<and> nl \<notin> set ip) slots lss"
    by auto
  show ?case
  proof (intro exI conjI)
    show "services = acc @ map triple_quoted (openvpn_proxy_template i dir env cf ip (8888 + i) # lss)"
      using a s by simp
    show "list_all2 (\<lambda>i ls. \<exists>cf ip. ls = openvpn_proxy_template i dir env cf ip (8888 + i)
                                   \<and> nl \<notin> set cf \<and> nl \<notin> set ip) (i # slots)
            (openvpn_proxy_template i dir env cf ip (8888 + i) # lss)"
      using b ok by auto
  qed
qed

subsection \<open>The manifest\<close>

lemma manifest_text_written:
  "write_file compose_file text w = (Inr (), w1) \<Longrightarrow> manifest_text (py_print s w1) = text"
  by (auto simp: write_file_def manifest_text_def py_print_def split: option.splits node.splits)

lemma write_file_ok:
  "\<not> path_isdir w p \<Longrightarrow> write_file p text w = (Inr (), w\<lparr>fs := (fs w)(p \<mapsto> File text)\<rparr>)"
  by (auto simp: write_file_def path_isdir_def split: option.splits node.splits)

lemma generate_returns:
  assumes "generate_combined_docker_compose n m locs env dir w = (Inr r, w2)"
  shows "\<exists>services w1. services_loop [1 ..< n + 1] m locs env dir [] w = (Inr services, w1)
           \<and> r = (compose_file, env)
           \<and> manifest_text w2 = ''services:'' @ [nl] @ join_nl services"
proof -
  define slots where "slots = [1 ..< n + 1]"
  obtain y w1 where l: "services_loop slots m locs env dir [] w = (y, w1)"
    by (cases "services_loop slots m locs env dir [] w")
  from assms have a: "(case y of Inl e \<Rightarrow> (Inl e, w1)
      | Inr services \<Rightarrow>
          (let compose_content = ''services:'' @ [nl] @ join_nl services
           in case write_file compose_file compose_content w1 of
                (Inl e, w2) \<Rightarrow> (Inl e, w2)
              | (Inr _, w2) \<Rightarrow>
                  (Inr (compose_file, env),
                   py_print (''Generated combined docker-compose file: '' @ compose_file) w2)))
      = (Inr r, w2)"
    unfolding generate_combined_docker_compose_def slots_def[symmetric] l by simp
  then obtain services where y: "y = Inr services"
    by (cases y) auto
  obtain z w1' where wr: "write_file compose_file (''services:'' @ [nl] @ join_nl services) w1 = (z, w1')"
    by (cases "write_file compose_file (''services:'' @ [nl] @ join_nl services) w1")
  from a y wr have z: "z = Inr ()" and r: "r = (compose_file, env)"
    and w2: "w2 = py_print (''Generated combined docker-compose file: '' @ compose_file) w1'"
    by (cases z; simp add: Let_def)+
  from manifest_text_written[OF wr[unfolded z]] l y r w2 show ?thesis
    unfolding slots_def by blast
qed

lemma ports_distinct:
  "n \<le> 7808 \<Longrightarrow> distinct (concat (map (\<lambda>i. [8888 + i, 1080 + i]) [1 ..< n + 1]))"
proof (induction n)
  case 0
  then show ?case by simp
next
  case (Suc n)
  then show ?case by auto
qed

lemma gluetun_manifest:
  assumes "n \<le> length locs" and "nl \<notin> set env" and "\<forall>l \<in> set locs. nl \<notin> set l"
    and "\<not> path_isdir w compose_file"
  shows "fst (generate_combined_docker_compose n ''1'' locs env dir w) = Inr (compose_file, env)
       \<and> manifest_blocks (manifest_text (snd (generate_combined_docker_compose n ''1'' locs env dir w)))
           = map (\<lambda>i. gluetun_template i (locs ! (i - 1)) env (8888 + i) (1080 + i)) [1 ..< n + 1]"
proof -
  define slots where "slots = [1 ..< n + 1]"
  define lss where "lss = map (\<lambda>i. gluetun_template i (locs ! (i - 1)) env (8888 + i) (1080 + i)) slots"
  have in_range: "\<And>i. i \<in> set slots \<Longrightarrow> 1 \<le> i \<and> i \<le> length locs"
    using assms(1) by (auto simp: slots_def)
  have services: "map (\<lambda>i. generate_gluetun_service i (locs ! (i - 1)) env) slots
                    = map triple_quoted lss"
    by (simp add: lss_def generate_gluetun_service_def Let_def)
  have l: "services_loop slots ''1'' locs env dir [] w = (Inr (map triple_quoted lss), w)"
    using services_loop_gluetun[of slots locs env dir "[]" w, OF in_range] services by simp
  let ?text = "''services:'' @ [nl] @ join_nl (map triple_quoted lss)"
  note wr = write_file_ok[OF assms(4), of ?text]
  have g: "generate_combined_docker_compose n ''1'' locs env dir w
             = (Inr (compose_file, env),
                py_print (''Generated combined docker-compose file: '' @ compose_file)
                  (w\<lparr>fs := (fs w)(compose_file \<mapsto> File ?text)\<rparr>))"
    unfolding generate_combined_docker_compose_def slots_def[symmetric] l prod.case sum.case
      Let_def wr
    by simp
  have "list_all template_block lss"
  proof -
    have "template_block (gluetun_template i (locs ! (i - 1)) env (8888 + i) (1080 + i))"
      if "i \<in> set slots" for i
    proof -
      from in_range[OF that] have "i - 1 < length locs" by arith
      then have "locs ! (i - 1) \<in> set locs" by (rule nth_mem)
      with assms(3) have "nl \<notin> set (locs ! (i - 1))" by blast
      then show ?thesis using assms(2) by (rule gluetun_template_block)
    qed
    then show ?thesis by (simp add: lss_def list_all_iff)
  qed
  from manifest_blocks_compose_content[OF this] manifest_text_written[OF wr]
  show ?thesis
    unfolding g by (simp add: lss_def slots_def)
qed

lemma rand_only_procs: "random_choice xs w = (x, w1) \<Longrightarrow> procs w1 = procs w"
  by (auto simp: random_choice_def split: list.splits)

lemma choose_random_file_procs: "choose_random_file d p w = (x, w1) \<Longrightarrow> procs w1 = procs w"
  by (auto simp: choose_random_file_def choose_random_file_body_def Let_def
      dest: rand_only_procs split: sum.splits prod.splits if_splits)

lemma openvpn_service_returns:
  assumes dir: "fs w dir = Some (Dir (Some names))" and nonempty: "[] \<notin> set names"
    and admitted: "\<exists>f \<in> set names. location_admits loc f"
    and host: "procs w [''hostname'', ''-I''] = Some (0, printed)" "py_split printed \<noteq> []"
  shows "\<exists>s w1. generate_openvpn_proxy_service i loc dir env w = (Inr s, w1)
           \<and> fs w1 = fs w \<and> procs w1 = procs w"
proof -
  let ?p = "if loc \<noteq> ''any'' then Some loc else None"
  let ?m = "filter (location_admits loc) names"
  have ex: "path_exists w dir" "path_isdir w dir"
    using dir by (simp_all add: path_exists_def path_isdir_def)
  have ls: "listdir w dir = Inr names"
    using dir by (simp add: listdir_cases)
  from admitted have m: "?m \<noteq> []"
    by (auto simp: filter_empty_conv)
  obtain r w1 where c: "choose_random_file dir ?p w = (r, w1)"
    by (cases "choose_random_file dir ?p w")
  from choose_random_file_some_match[OF ls, of ?p] m c
  have r: "r = Inr (Some (fst (random_choice ?m w)))"
    by (simp add: source_filter_is_location_filter)
  from random_choice_member[OF m, of w] nonempty have ne: "fst (random_choice ?m w) \<noteq> []"
    by auto
  from choose_random_file_procs[OF c] host(1)
  have h1: "procs w1 [''hostname'', ''-I''] = Some (0, printed)"
    by simp
  obtain w2 where sp: "subprocess_run [''hostname'', ''-I''] w1 = (Inr printed, w2)"
    using h1 by (simp add: subprocess_run_def)
  from host(2) obtain ip where ip: "py_index (py_split printed) 0 = Inr ip"
    by (auto simp: py_index_def)
  have "generate_openvpn_proxy_service i loc dir env w
          = (Inr (triple_quoted (openvpn_proxy_template i dir env (fst (random_choice ?m w)) ip
                                   (8888 + i))), w2)"
    unfolding generate_openvpn_proxy_service_def c r
    using ex ne by (simp add: sp ip Let_def)
  moreover from this have "fs w2 = fs w"
    by (rule generate_openvpn_proxy_service_fs)
  moreover have "procs w2 = procs w"
    using subprocess_run_procs[OF sp] choose_random_file_procs[OF c] by simp
  ultimately show ?thesis by blast
qed

lemma services_loop_openvpn_returns:
  assumes "fs w dir = Some (Dir (Some names))" and "[] \<notin> set names"
    and "\<forall>i \<in> set slots. 1 \<le> i \<and> i \<le> length locs
            \<and> (\<exists>f \<in> set names. location_admits (locs ! (i - 1)) f)"
    and "procs w [''hostname'', ''-I''] = Some (0, printed)" and "py_split printed \<noteq> []"
  shows "\<exists>services w1. services_loop slots ''2'' locs env dir acc w = (Inr services, w1)"
  using assms(1,3,4)
proof (induction slots arbitrary: acc w)
  case Nil
  then show ?case by simp
next
  case (Cons i slots)
  from Cons.prems(2) have i: "1 \<le> i" "i \<le> length locs"
    and adm: "\<exists>f \<in> set names. location_admits (locs ! (i - 1)) f"
    and rest: "\<forall>i \<in> set slots. 1 \<le> i \<and> i \<le> length locs
            \<and> (\<exists>f \<in> set names. location_admits (locs ! (i - 1)) f)"
    by simp_all
  from i have idx: "py_index locs (i - 1) = Inr (locs ! (i - 1))"
    by (auto simp: py_index_def)
  from openvpn_service_returns[OF Cons.prems(1) assms(2) adm Cons.prems(3) assms(5), of i env]
  obtain s w1 where g: "generate_openvpn_proxy_service i (locs ! (i - 1)) dir env w = (Inr s, w1)"
    and f: "fs w1 = fs w" and p: "procs w1 = procs w"
    by blast
  from Cons.IH[of w1 "acc @ [s]"] Cons.prems(1,3) rest f p
  obtain services w2 where "services_loop slots ''2'' locs env dir (acc @ [s]) w1 = (Inr services, w2)"
    by auto
  with idx g show ?case by simp
qed

lemma gluetun_manifest_ports:
  assumes "n \<le> length locs" and "nl \<notin> set env" and "\<forall>l \<in> set locs. nl \<notin> set l"
    and "\<not> path_isdir w compose_file"
  shows "map block_ports (generated_blocks n ''1'' locs env dir w)
           = map (\<lambda>i. [(8888 + i, 8888 + i), (1080 + i, 1080 + i)]) [1 ..< n + 1]"
  unfolding generated_blocks_def
  using gluetun_manifest[OF assms, of dir]
  by (simp add: gluetun_template_ports del: upt_Suc)

lemma openvpn_manifest_ports:
  assumes g: "generate_combined_docker_compose n ''2'' locs env dir w = (Inr r, w2)"
    and env: "nl \<notin> set env" and dir: "nl \<notin> set dir"
    and names: "\<forall>names f. fs w dir = Some (Dir (Some names)) \<longrightarrow> f \<in> set names \<longrightarrow> nl \<notin> set f"
  shows "r = (compose_file, env)
       \<and> map block_ports (manifest_blocks (manifest_text w2))
           = map (\<lambda>i. [(8888 + i, 8888 + i)]) [1 ..< n + 1]"
proof -
  define slots where "slots = [1 ..< n + 1]"
  from generate_returns[OF g] obtain services w1
    where l: "services_loop slots ''2'' locs env dir [] w = (Inr services, w1)"
      and r: "r = (compose_file, env)"
      and content: "manifest_text w2 = ''services:'' @ [nl] @ join_nl services"
    unfolding slots_def by blast
  from services_loop_openvpn[OF l names] obtain lss
    where s: "services = map triple_quoted lss"
      and shape: "list_all2 (\<lambda>i ls. \<exists>cf ip. ls = openvpn_proxy_template i dir env cf ip (8888 + i)
                                   \<and> nl \<notin> set cf \<and> nl \<notin> set ip) slots lss"
    by auto
  from shape have len: "length lss = length slots"
    by (simp add: list_all2_lengthD)
  have nth: "\<exists>cf ip. lss ! k = openvpn_proxy_template (slots ! k) dir env cf ip (8888 + slots ! k)
                \<and> nl \<notin> set cf \<and> nl \<notin> set ip" if "k < length lss" for k
    using list_all2_nthD2[OF shape that] .
  have "list_all template_block lss"
    unfolding list_all_length
  proof (intro allI impI)
    fix k assume "k < length lss"
    from nth[OF this] env dir show "template_block (lss ! k)"
      by (auto intro: openvpn_proxy_template_block)
  qed
  from manifest_blocks_compose_content[OF this] content s
  have blocks: "manifest_blocks (manifest_text w2) = lss"
    by simp
  have "map block_ports lss = map (\<lambda>i. [(8888 + i, 8888 + i)]) slots"
  proof (rule nth_equalityI)
    show "length (map block_ports lss) = length (map (\<lambda>i. [(8888 + i, 8888 + i)]) slots)"
      using len by simp
  next
    fix k assume "k < length (map block_ports lss)"
    then have k: "k < length lss" by simp
    from nth[OF k] k len
    show "map block_ports lss ! k = map (\<lambda>i. [(8888 + i, 8888 + i)]) slots ! k"
      by (auto simp: openvpn_proxy_template_ports)
  qed
  with blocks r show ?thesis
    by (simp add: slots_def)
qed

lemma openvpn_manifest_returns:
  assumes "fs w dir = Some (Dir (Some names))" and "[] \<notin> set names"
    and "\<forall>i<n. i < length locs \<and> (\<exists>f \<in> set names. location_admits (locs ! i) f)"
    and "procs w [''hostname'', ''-I''] = Some (0, printed)" and "py_split printed \<noteq> []"
    and "\<not> path_isdir w compose_file"
  shows "\<not> isl (fst (generate_combined_docker_compose n ''2'' locs env dir w))"
proof -
  define slots where "slots = [1 ..< n + 1]"
  have "\<forall>i \<in> set slots. 1 \<le> i \<and> i \<le> length locs
            \<and> (\<exists>f \<in> set names. location_admits (locs ! (i - 1)) f)"
  proof
    fix i assume "i \<in> set slots"
    then have "1 \<le> i" "i - 1 < n" by (auto simp: slots_def)
    with assms(3) show "1 \<le> i \<and> i \<le> length locs
            \<and> (\<exists>f \<in> set names. location_admits (locs ! (i - 1)) f)"
      by (metis Suc_leI Suc_pred' less_eq_Suc_le One_nat_def)
  qed
  from services_loop_openvpn_returns[OF assms(1,2) this assms(4,5), of env "[]"]
  obtain services w1 where l: "services_loop slots ''2'' locs env dir [] w = (Inr services, w1)"
    by blast
  from services_loop_fs[OF l] assms(6) have "\<not> path_isdir w1 compose_file"
    by (simp add: path_isdir_def)
  note wr = write_file_ok[OF this, of "''services:'' @ [nl] @ join_nl services"]
  show ?thesis
    unfolding generate_combined_docker_compose_def slots_def[symmetric] l prod.case sum.case
      Let_def wr
    by simp
qed

lemma upt_1_3: "[1 ..< 2 + 1] = [1, 2::nat]"
  by (simp add: upt_rec)

lemma display_proxy_info_2:
  "display_proxy_info 2 w =
     w\<lparr>out := out w @
       [[nl] @ ''--- Proxy Information ---'',
        ''You can use the following addresses as proxies on your host machine:'',
        ''Note: Ensure the VPN-Proxy containers are running.'',
        ''VPN Connection 1:'',
        ''  HTTP Proxy: http://localhost:8889'',
        ''  SOCKS5 Proxy: socks5://localhost:1081'',
        ''VPN Connection 2:'',
        ''  HTTP Proxy: http://localhost:8890'',
        ''  SOCKS5 Proxy: socks5://localhost:1082'',
        ''-------------------------'']\<rparr>"
  unfolding display_proxy_info_def upt_1_3
  by (simp add: py_print_def Let_def str_nat_lt10 str_nat_ge10)

text \<open>
  Claim C8. For two connections with method 1 (two locations and a credentials path
  without line feeds, a manifest path that is not a directory) the generator returns
  and the manifest has exactly two service blocks, publishing the ports 8889 and 1081
  and the ports 8890 and 1082; \<open>display_proxy_info 2\<close> prints, between its three
  heading lines and its closing rule, exactly the HTTP and SOCKS5 endpoints of these
  four ports.
\<close>

theorem two_gluetun_connections:
  assumes "2 \<le> length locs" and "nl \<notin> set env" and "\<forall>l \<in> set locs. nl \<notin> set l"
    and "\<not> path_isdir w compose_file"
  shows "fst (generate_combined_docker_compose 2 ''1'' locs env dir w) = Inr (compose_file, env)
       \<and> map block_ports (generated_blocks 2 ''1'' locs env dir w)
           = [[(8889, 8889), (1081, 1081)], [(8890, 8890), (1082, 1082)]]
       \<and> out (display_proxy_info 2 w') = out w' @
           [[nl] @ ''--- Proxy Information ---'',
            ''You can use the following addresses as proxies on your host machine:'',
            ''Note: Ensure the VPN-Proxy containers are running.'',
            ''VPN Connection 1:'',
            ''  HTTP Proxy: http://localhost:8889'',
            ''  SOCKS5 Proxy: socks5://localhost:1081'',
            ''VPN Connection 2:'',
            ''  HTTP Proxy: http://localhost:8890'',
            ''  SOCKS5 Proxy: socks5://localhost:1082'',
            ''-------------------------'']"
proof -
  from gluetun_manifest[OF assms, of dir]
  have "fst (generate_combined_docker_compose 2 ''1'' locs env dir w) = Inr (compose_file, env)"
    by simp
  moreover have "map block_ports (generated_blocks 2 ''1'' locs env dir w)
           = [[(8889, 8889), (1081, 1081)], [(8890, 8890), (1082, 1082)]]"
    unfolding gluetun_manifest_ports[OF assms, of dir] upt_1_3 by simp
  ultimately show ?thesis
    unfolding display_proxy_info_2 by simp
qed

theorem two_gluetun_connections_witness:
  "2 \<le> length [''any'', ''de'']
   \<and> nl \<notin> set ''.env-nordvpn''
   \<and> \<not> path_isdir world_with_env compose_file
   \<and> fst (generate_combined_docker_compose 2 ''1'' [''any'', ''de''] ''.env-nordvpn'' config_dir
            world_with_env) = Inr (compose_file, ''.env-nordvpn'')
   \<and> map block_ports (generated_blocks 2 ''1'' [''any'', ''de''] ''.env-nordvpn'' config_dir
                         world_with_env)
       = [[(8889, 8889), (1081, 1081)], [(8890, 8890), (1082, 1082)]]
   \<and> out (display_proxy_info 2 empty_world) = out empty_world @
           [[nl] @ ''--- Proxy Information ---'',
            ''You can use the following addresses as proxies on your host machine:'',
            ''Note: Ensure the VPN-Proxy containers are running.'',
            ''VPN Connection 1:'',
            ''  HTTP Proxy: http://localhost:8889'',
            ''  SOCKS5 Proxy: socks5://localhost:1081'',
            ''VPN Connection 2:'',
            ''  HTTP Proxy: http://localhost:8890'',
            ''  SOCKS5 Proxy: socks5://localhost:1082'',
            ''-------------------------'']"
proof -
  have a: "2 \<le> length [''any'', ''de'']" "nl \<notin> set ''.env-nordvpn''"
      "\<forall>l \<in> set [''any'', ''de'']. nl \<notin> set l"
      "\<not> path_isdir world_with_env compose_file"
    by (simp_all add: nl_def path_isdir_def world_with_env_def empty_world_def compose_file_def)
  from two_gluetun_connections[OF a, of config_dir empty_world] a show ?thesis
    by blast
qed

lemma host_ports_distinct:
  assumes "n \<le> 10"
  shows "distinct (map fst (concat (map (\<lambda>i. [(8888 + i, 8888 + i), (1080 + i, 1080 + i)])
                                     [1 ..< n + 1])))"
    and "distinct (map fst (concat (map (\<lambda>i. [(8888 + i, 8888 + i)]) [1 ..< n + 1])))"
proof -
  from assms have "n \<le> 7808" by simp
  from ports_distinct[OF this]
  have d: "distinct (concat (map (\<lambda>i. [8888 + i, 1080 + i]) [1 ..< n + 1]))" .
  have 1: "map fst (concat (map (\<lambda>i. [(8888 + i, 8888 + i), (1080 + i, 1080 + i)]) xs))
             = concat (map (\<lambda>i. [8888 + i, 1080 + i]) xs)" for xs :: "nat list"
    by (induction xs) simp_all
  have 2: "map fst (concat (map (\<lambda>i. [(8888 + i, 8888 + i)]) xs)) = map (\<lambda>i. 8888 + i) xs"
    for xs :: "nat list"
    by (induction xs) simp_all
  from d show "distinct (map fst (concat (map (\<lambda>i. [(8888 + i, 8888 + i), (1080 + i, 1080 + i)])
                                     [1 ..< n + 1])))"
    by (simp only: 1)
  show "distinct (map fst (concat (map (\<lambda>i. [(8888 + i, 8888 + i)]) [1 ..< n + 1])))"
    by (simp only: 2) (simp add: distinct_map inj_on_def)
qed

lemma nth_slot: "i < n \<Longrightarrow> map f [1 ..< n + 1] ! i = f (i + 1)"
  by (simp del: upt_Suc)

text \<open>
  Claim C1, amended. Let there be at most ten connections, a location for each, no line
  feed in the locations and the credentials path, and a manifest path that is not a
  directory. With method 1 the generator returns and the manifest has exactly \<open>n\<close>
  service blocks, block \<open>i\<close> publishing exactly the HTTP port \<open>8888 + i\<close> and the
  SOCKS5 port \<open>1080 + i\<close>. With method 2, whenever the generator returns (and it does
  return when the configuration directory lists a named file for the location of every
  slot and \<open>hostname -I\<close> prints an address), the manifest has exactly \<open>n\<close> service
  blocks and block \<open>i\<close> publishes the HTTP port \<open>8888 + i\<close> alone. With either method the
  ports grow with the slot and no host port is published twice.
\<close>

theorem manifest_blocks_and_ports:
  assumes "n \<le> 10" and "n \<le> length locs"
    and "nl \<notin> set env" and "\<forall>l \<in> set locs. nl \<notin> set l"
    and "\<not> path_isdir w compose_file"
  shows "fst (generate_combined_docker_compose n ''1'' locs env dir w) = Inr (compose_file, env)
       \<and> length (generated_blocks n ''1'' locs env dir w) = n
       \<and> (\<forall>i<n. block_ports (generated_blocks n ''1'' locs env dir w ! i)
                   = [(8888 + (i + 1), 8888 + (i + 1)), (1080 + (i + 1), 1080 + (i + 1))])
       \<and> distinct (map fst (concat (map block_ports (generated_blocks n ''1'' locs env dir w))))
       \<and> (nl \<notin> set dir
            \<and> (\<forall>names f. fs w dir = Some (Dir (Some names)) \<longrightarrow> f \<in> set names \<longrightarrow> nl \<notin> set f)
            \<and> \<not> isl (fst (generate_combined_docker_compose n ''2'' locs env dir w))
          \<longrightarrow> fst (generate_combined_docker_compose n ''2'' locs env dir w)
                = Inr (compose_file, env)
            \<and> length (generated_blocks n ''2'' locs env dir w) = n
            \<and> (\<forall>i<n. block_ports (generated_blocks n ''2'' locs env dir w ! i)
                        = [(8888 + (i + 1), 8888 + (i + 1))])
            \<and> distinct (map fst (concat (map block_ports
                                            (generated_blocks n ''2'' locs env dir w)))))
       \<and> ((\<exists>names printed. fs w dir = Some (Dir (Some names)) \<and> [] \<notin> set names
              \<and> (\<forall>i<n. \<exists>f \<in> set names. location_admits (locs ! i) f)
              \<and> procs w [''hostname'', ''-I''] = Some (0, printed) \<and> py_split printed \<noteq> [])
          \<longrightarrow> \<not> isl (fst (generate_combined_docker_compose n ''2'' locs env dir w)))"
proof (intro conjI impI)
  note g = gluetun_manifest[OF assms(2-5), of dir]
  note p = gluetun_manifest_ports[OF assms(2-5), of dir]
  show "fst (generate_combined_docker_compose n ''1'' locs env dir w) = Inr (compose_file, env)"
    using g by simp
  from p have len: "length (map block_ports (generated_blocks n ''1'' locs env dir w))
        = length (map (\<lambda>i. [(8888 + i, 8888 + i), (1080 + i, 1080 + i)]) [1 ..< n + 1])"
    by simp
  then show l1: "length (generated_blocks n ''1'' locs env dir w) = n"
    by (simp del: upt_Suc)
  show "\<forall>i<n. block_ports (generated_blocks n ''1'' locs env dir w ! i)
                   = [(8888 + (i + 1), 8888 + (i + 1)), (1080 + (i + 1), 1080 + (i + 1))]"
  proof (intro allI impI)
    fix i assume i: "i < n"
    with l1 have "block_ports (generated_blocks n ''1'' locs env dir w ! i)
                    = map block_ports (generated_blocks n ''1'' locs env dir w) ! i"
      by simp
    also have "\<dots> = [(8888 + (i + 1), 8888 + (i + 1)), (1080 + (i + 1), 1080 + (i + 1))]"
      unfolding p using nth_slot[OF i] .
    finally show "block_ports (generated_blocks n ''1'' locs env dir w ! i)
                   = [(8888 + (i + 1), 8888 + (i + 1)), (1080 + (i + 1), 1080 + (i + 1))]" .
  qed
  show "distinct (map fst (concat (map block_ports (generated_blocks n ''1'' locs env dir w))))"
    unfolding p using host_ports_distinct(1)[OF assms(1)] .
next
  assume a: "nl \<notin> set dir
            \<and> (\<forall>names f. fs w dir = Some (Dir (Some names)) \<longrightarrow> f \<in> set names \<longrightarrow> nl \<notin> set f)
            \<and> \<not> isl (fst (generate_combined_docker_compose n ''2'' locs env dir w))"
  then obtain r w2 where g: "generate_combined_docker_compose n ''2'' locs env dir w = (Inr r, w2)"
    by (cases "generate_combined_docker_compose n ''2'' locs env dir w";
        cases "fst (generate_combined_docker_compose n ''2'' locs env dir w)") auto
  from a openvpn_manifest_ports[OF g assms(3)]
  have r: "r = (compose_file, env)"
    and p: "map block_ports (generated_blocks n ''2'' locs env dir w)
              = map (\<lambda>i. [(8888 + i, 8888 + i)]) [1 ..< n + 1]"
    by (simp_all add: generated_blocks_def g)
  show "fst (generate_combined_docker_compose n ''2'' locs env dir w) = Inr (compose_file, env)"
    using g r by simp
  from p have "length (map block_ports (generated_blocks n ''2'' locs env dir w))
        = length (map (\<lambda>i. [(8888 + i, 8888 + i)]) [1 ..< n + 1])"
    by simp
  then show l2: "length (generated_blocks n ''2'' locs env dir w) = n"
    by (simp del: upt_Suc)
  show "\<forall>i<n. block_ports (generated_blocks n ''2'' locs env dir w ! i)
                   = [(8888 + (i + 1), 8888 + (i + 1))]"
  proof (intro allI impI)
    fix i assume i: "i < n"
    with l2 have "block_ports (generated_blocks n ''2'' locs env dir w ! i)
                    = map block_ports (generated_blocks n ''2'' locs env dir w) ! i"
      by simp
    also have "\<dots> = [(8888 + (i + 1), 8888 + (i + 1))]"
      unfolding p using nth_slot[OF i] .
    finally show "block_ports (generated_blocks n ''2'' locs env dir w ! i)
                   = [(8888 + (i + 1), 8888 + (i + 1))]" .
  qed
  show "distinct (map fst (concat (map block_ports (generated_blocks n ''2'' locs env dir w))))"
    unfolding p using host_ports_distinct(2)[OF assms(1)] .
next
  assume "\<exists>names printed. fs w dir = Some (Dir (Some names)) \<and> [] \<notin> set names
              \<and> (\<forall>i<n. \<exists>f \<in> set names. location_admits (locs ! i) f)
              \<and> procs w [''hostname'', ''-I''] = Some (0, printed) \<and> py_split printed \<noteq> []"
  then obtain names printed where d: "fs w dir = Some (Dir (Some names))" "[] \<notin> set names"
    and adm: "\<forall>i<n. \<exists>f \<in> set names. location_admits (locs ! i) f"
    and h: "procs w [''hostname'', ''-I''] = Some (0, printed)" "py_split printed \<noteq> []"
    by blast
  from adm assms(2)
  have "\<forall>i<n. i < length locs \<and> (\<exists>f \<in> set names. location_admits (locs ! i) f)"
    by auto
  from openvpn_manifest_returns[OF d this h assms(5)]
  show "\<not> isl (fst (generate_combined_docker_compose n ''2'' locs env dir w))" .
qed

lemma world_with_configs_facts:
  "fs world_with_configs config_dir
     = Some (Dir (Some [''us1234.nordvpn.com.tcp.ovpn'', ''de987.nordvpn.com.tcp.ovpn'',
                        ''us5678.nordvpn.com.tcp.ovpn'']))"
  "procs world_with_configs [''hostname'', ''-I''] = Some (0, ''192.168.1.23 172.17.0.1 '' @ [nl])"
  "py_split (''192.168.1.23 172.17.0.1 '' @ [nl]) \<noteq> []"
  "\<not> path_isdir world_with_configs compose_file"
  "nl \<notin> set config_dir"
  "nl \<notin> set ''.env-nordvpn''"
  "\<forall>names f. fs world_with_configs config_dir = Some (Dir (Some names)) \<longrightarrow>
       f \<in> set names \<longrightarrow> nl \<notin> set f"
  by (auto simp: world_with_configs_def world_with_env_def empty_world_def config_dir_def
      compose_file_def path_isdir_def is_space_def nl_def)

lemma openvpn_example_text:
  "manifest_text (snd (generate_combined_docker_compose 1 ''2'' [''us''] ''.env-nordvpn''
                         config_dir world_with_configs))
     = ''services:'' @ [nl]
         @ triple_quoted (openvpn_proxy_template 1 config_dir ''.env-nordvpn''
                            ''us5678.nordvpn.com.tcp.ovpn'' ''192.168.1.23'' 8889)"
proof -
  have c: "choose_random_file config_dir (Some ''us'') world_with_configs
             = (Inr (Some ''us5678.nordvpn.com.tcp.ovpn''), world_with_configs\<lparr>rand := [0]\<rparr>)"
    by (simp add: choose_random_file_def choose_random_file_body_def listdir_def
        world_with_configs_facts(1) startswith_def random_choice_def)
       (simp add: world_with_configs_def)
  have h: "subprocess_run [''hostname'', ''-I''] (world_with_configs\<lparr>rand := [0]\<rparr>)
             = (Inr (''192.168.1.23 172.17.0.1 '' @ [nl]),
                world_with_configs\<lparr>rand := [0], ran := [[''hostname'', ''-I'']]\<rparr>)"
    by (simp add: subprocess_run_def world_with_configs_facts(2) proc_effect_def)
       (simp add: world_with_configs_def world_with_env_def empty_world_def)
  have g: "generate_openvpn_proxy_service 1 ''us'' config_dir ''.env-nordvpn'' world_with_configs
             = (Inr (triple_quoted (openvpn_proxy_template 1 config_dir ''.env-nordvpn''
                            ''us5678.nordvpn.com.tcp.ovpn'' ''192.168.1.23'' 8889)),
                world_with_configs\<lparr>rand := [0], ran := [[''hostname'', ''-I'']]\<rparr>)"
    unfolding generate_openvpn_proxy_service_def
    by (simp add: path_exists_def path_isdir_def world_with_configs_facts(1) c h py_index_def
        is_space_def nl_def)
  have l: "services_loop [1 ..< 1 + 1] ''2'' [''us''] ''.env-nordvpn'' config_dir []
             world_with_configs
           = (Inr [triple_quoted (openvpn_proxy_template 1 config_dir ''.env-nordvpn''
                            ''us5678.nordvpn.com.tcp.ovpn'' ''192.168.1.23'' 8889)],
              world_with_configs\<lparr>rand := [0], ran := [[''hostname'', ''-I'']]\<rparr>)"
    unfolding upt_1_2 by (simp add: py_index_def g[unfolded One_nat_def])
  show ?thesis
    unfolding generate_combined_docker_compose_def l
    by (simp add: write_file_def manifest_text_def py_print_def world_with_configs_def
        world_with_env_def empty_world_def compose_file_def config_dir_def)
qed

lemma openvpn_example_no_1081:
  "\<not> occurs ''1081''
       (''services:'' @ [nl]
         @ triple_quoted (openvpn_proxy_template 1 config_dir ''.env-nordvpn''
                            ''us5678.nordvpn.com.tcp.ovpn'' ''192.168.1.23'' 8889))"
  by (simp add: triple_quoted_def openvpn_proxy_template_def str_nat_lt10 str_nat_ge10
      startswith_def config_dir_def nl_def dq_def)

text \<open>
  Claim C1 as stated fails for method 2: the block of slot 1 publishes port 8889 only,
  and the number 1081 occurs nowhere in the manifest.
\<close>

theorem openvpn_block_publishes_http_only:
  "fst (generate_combined_docker_compose 1 ''2'' [''us''] ''.env-nordvpn'' config_dir
          world_with_configs) = Inr (compose_file, ''.env-nordvpn'')
   \<and> map block_ports (generated_blocks 1 ''2'' [''us''] ''.env-nordvpn'' config_dir
                         world_with_configs) = [[(8889, 8889)]]
   \<and> block_ports (generated_blocks 1 ''2'' [''us''] ''.env-nordvpn'' config_dir
                     world_with_configs ! 0) \<noteq> [(8889, 8889), (1081, 1081)]
   \<and> \<not> occurs ''1081''
         (manifest_text (snd (generate_combined_docker_compose 1 ''2'' [''us''] ''.env-nordvpn''
                                config_dir world_with_configs)))"
proof -
  let ?g = "generate_combined_docker_compose 1 ''2'' [''us''] ''.env-nordvpn'' config_dir
              world_with_configs"
  have adm: "\<forall>i<1. i < length [''us'']
               \<and> (\<exists>f \<in> set [''us1234.nordvpn.com.tcp.ovpn'', ''de987.nordvpn.com.tcp.ovpn'',
                               ''us5678.nordvpn.com.tcp.ovpn'']. location_admits ([''us''] ! i) f)"
    by (simp add: location_admits_def startswith_def)
  have ne: "[] \<notin> set [''us1234.nordvpn.com.tcp.ovpn'', ''de987.nordvpn.com.tcp.ovpn'',
                          ''us5678.nordvpn.com.tcp.ovpn'']"
    by simp
  from openvpn_manifest_returns[OF world_with_configs_facts(1) ne adm
      world_with_configs_facts(2,3,4), of "''.env-nordvpn''"]
  obtain r w2 where g: "?g = (Inr r, w2)"
    by (cases ?g; cases "fst ?g") auto
  from openvpn_manifest_ports[OF g world_with_configs_facts(6,5,7)]
  have r: "r = (compose_file, ''.env-nordvpn'')"
    and p: "map block_ports (manifest_blocks (manifest_text w2)) = [[(8889, 8889)]]"
    by (simp_all add: upt_rec)
  from p have "block_ports (manifest_blocks (manifest_text w2) ! 0) = [(8889, 8889)]"
    by (cases "manifest_blocks (manifest_text w2)") auto
  moreover have "\<not> occurs ''1081'' (manifest_text (snd ?g))"
    unfolding openvpn_example_text by (rule openvpn_example_no_1081)
  ultimately show ?thesis
    using g r p by (simp add: generated_blocks_def)
qed

theorem manifest_blocks_and_ports_witness:
  "(2::nat) \<le> 10
   \<and> 2 \<le> length [''us'', ''de'']
   \<and> nl \<notin> set ''.env-nordvpn''
   \<and> \<not> path_isdir world_with_configs compose_file
   \<and> fst (generate_combined_docker_compose 2 ''1'' [''us'', ''de''] ''.env-nordvpn'' config_dir
            world_with_configs) = Inr (compose_file, ''.env-nordvpn'')
   \<and> length (generated_blocks 2 ''1'' [''us'', ''de''] ''.env-nordvpn'' config_dir
                world_with_configs) = 2
   \<and> block_ports (generated_blocks 2 ''1'' [''us'', ''de''] ''.env-nordvpn'' config_dir
                     world_with_configs ! 0) = [(8889, 8889), (1081, 1081)]
   \<and> block_ports (generated_blocks 2 ''1'' [''us'', ''de''] ''.env-nordvpn'' config_dir
                     world_with_configs ! 1) = [(8890, 8890), (1082, 1082)]
   \<and> \<not> isl (fst (generate_combined_docker_compose 2 ''2'' [''us'', ''de''] ''.env-nordvpn''
                     config_dir world_with_configs))
   \<and> length (generated_blocks 2 ''2'' [''us'', ''de''] ''.env-nordvpn'' config_dir
                world_with_configs) = 2
   \<and> block_ports (generated_blocks 2 ''2'' [''us'', ''de''] ''.env-nordvpn'' config_dir
                     world_with_configs ! 0) = [(8889, 8889)]
   \<and> block_ports (generated_blocks 2 ''2'' [''us'', ''de''] ''.env-nordvpn'' config_dir
                     world_with_configs ! 1) = [(8890, 8890)]"
proof -
  let ?locs = "[''us'', ''de'']"
  let ?names = "[''us1234.nordvpn.com.tcp.ovpn'', ''de987.nordvpn.com.tcp.ovpn'',
                 ''us5678.nordvpn.com.tcp.ovpn'']"
  have a: "(2::nat) \<le> 10" "2 \<le> length ?locs" "nl \<notin> set ''.env-nordvpn''"
      "\<forall>l \<in> set ?locs. nl \<notin> set l" "\<not> path_isdir world_with_configs compose_file"
    using world_with_configs_facts(4,6) by (simp_all add: nl_def)
  note t = manifest_blocks_and_ports[OF a, of config_dir]
  have adm: "\<forall>i<2. \<exists>f \<in> set ?names. location_admits (?locs ! i) f"
    by (simp add: location_admits_def startswith_def less_Suc_eq numeral_2_eq_2)
  have "fs world_with_configs config_dir = Some (Dir (Some ?names)) \<and> [] \<notin> set ?names
      \<and> (\<forall>i<2. \<exists>f \<in> set ?names. location_admits (?locs ! i) f)
      \<and> procs world_with_configs [''hostname'', ''-I'']
          = Some (0, ''192.168.1.23 172.17.0.1 '' @ [nl])
      \<and> py_split (''192.168.1.23 172.17.0.1 '' @ [nl]) \<noteq> []"
    using world_with_configs_facts(1,2,3) adm by simp
  then have ex: "\<exists>names printed. fs world_with_configs config_dir = Some (Dir (Some names))
      \<and> [] \<notin> set names
      \<and> (\<forall>i<2. \<exists>f \<in> set names. location_admits (?locs ! i) f)
      \<and> procs world_with_configs [''hostname'', ''-I''] = Some (0, printed)
      \<and> py_split printed \<noteq> []"
    by blast
  from t ex have ret: "\<not> isl (fst (generate_combined_docker_compose 2 ''2'' ?locs ''.env-nordvpn''
                     config_dir world_with_configs))"
    by blast
  from t have one: "fst (generate_combined_docker_compose 2 ''1'' ?locs ''.env-nordvpn'' config_dir
            world_with_configs) = Inr (compose_file, ''.env-nordvpn'')"
      "length (generated_blocks 2 ''1'' ?locs ''.env-nordvpn'' config_dir world_with_configs) = 2"
      "\<forall>i<2. block_ports (generated_blocks 2 ''1'' ?locs ''.env-nordvpn'' config_dir
                             world_with_configs ! i)
               = [(8888 + (i + 1), 8888 + (i + 1)), (1080 + (i + 1), 1080 + (i + 1))]"
    by blast+
  from t ret world_with_configs_facts(5,7)
  have two: "length (generated_blocks 2 ''2'' ?locs ''.env-nordvpn'' config_dir
                       world_with_configs) = 2"
      "\<forall>i<2. block_ports (generated_blocks 2 ''2'' ?locs ''.env-nordvpn'' config_dir
                             world_with_configs ! i)
               = [(8888 + (i + 1), 8888 + (i + 1))]"
    by blast+
  from one(3) have p1: "block_ports (generated_blocks 2 ''1'' ?locs ''.env-nordvpn'' config_dir
                     world_with_configs ! 0) = [(8889, 8889), (1081, 1081)]"
      "block_ports (generated_blocks 2 ''1'' ?locs ''.env-nordvpn'' config_dir
                     world_with_configs ! 1) = [(8890, 8890), (1082, 1082)]"
    by simp_all
  from two(2) have p2: "block_ports (generated_blocks 2 ''2'' ?locs ''.env-nordvpn'' config_dir
                     world_with_configs ! 0) = [(8889, 8889)]"
      "block_ports (generated_blocks 2 ''2'' ?locs ''.env-nordvpn'' config_dir
                     world_with_configs ! 1) = [(8890, 8890)]"
    by simp_all
  from a(1,2,3,5) one(1,2) p1 ret two(1) p2 show ?thesis
    by blast
qed

end
